theory Spec2Isabelle
  imports Main "HOL-Library.Word"
begin

section \<open>The event dispatcher of the tracer (src/main.cpp)\<close>

text \<open>
  The embedding follows \<^verbatim>\<open>src/main.cpp\<close> function by function. The file is the
  glue between the host instrumentation API, the analysis processor \<^verbatim>\<open>ap\<close>, the
  trigger \<^verbatim>\<open>analysisTrigger\<close> and the scripting layer \<^verbatim>\<open>processingPyConf\<close>.
  The three globals become one explicit state that every function takes and returns.
  Calls into the collaborators that matter for ordering (the lock, the replacement of
  the current context handle, every scripting hook, process exit) are appended to an
  event log kept in the state, in the order in which the source performs them.
  The embedding is of the full build: \<^verbatim>\<open>LIGHT_VERSION\<close> is not defined, so the
  two \<^verbatim>\<open>#ifndef LIGHT_VERSION\<close> regions are part of the program.
\<close>

subsection \<open>Machine types and host objects\<close>

type_synonym uint64 = "64 word"
type_synonym uint32 = "32 word"
type_synonym uint8 = "8 word"
type_synonym sint32 = "32 word"
type_synonym ADDRINT = "64 word"
type_synonym THREADID = "32 word"

text \<open>Opaque handles of the host and of the scripting layer.\<close>

type_synonym CONTEXT = nat
type_synonym PyObject = nat
type_synonym SYSCALL_STANDARD = nat

record IMG =
  IMG_Valid :: bool
  IMG_Name :: string
  IMG_LowAddress :: uint64
  IMG_HighAddress :: uint64

record SEC =
  SEC_Valid :: bool
  SEC_Img :: IMG

record RTN =
  RTN_Valid :: bool
  RTN_Sec :: SEC

record INS =
  INS_Address :: uint64
  INS_MemoryOperandCount :: uint32
  INS_OperandCount :: uint32
  INS_MemoryOperandIsWritten :: "uint32 \<Rightarrow> bool"
  INS_MemoryWriteSize :: uint32
  INS_IsSyscall :: bool
  INS_HasFallThrough :: bool

type_synonym BBL = "INS list"
type_synonym TRACE = "BBL list"

datatype IPOINT = IPOINT_BEFORE | IPOINT_AFTER | IPOINT_TAKEN_BRANCH

subsection \<open>Instruction descriptor and instruction record\<close>

record IRBuilder =
  irb_address :: uint64
  irb_nextAddress :: uint64
  irb_opcode :: uint32
  irb_opcodeCategory :: sint32
  irb_operands :: "nat list"
  irb_ea :: "uint64 option"
  irb_threadID :: THREADID
  irb_branchTaken :: bool
  irb_branchTargetAddress :: uint64

record Inst =
  inst_threadID :: THREADID
  inst_address :: uint64
  inst_nextAddress :: uint64
  inst_opcode :: uint32
  inst_opcodeCategory :: sint32
  inst_operands :: "nat list"
  inst_branchTaken :: bool
  inst_branchTargetAddress :: uint64

record PINContextHandler =
  ctxh_ctx :: CONTEXT
  ctxh_threadId :: THREADID

subsection \<open>Configuration and host lookups\<close>

text \<open>
  \<^verbatim>\<open>PyTritonOptions\<close>: the rule sets and the routine hook tables. The start symbol is
  a C string pointer, \<open>None\<close> is \<^verbatim>\<open>nullptr\<close>. The two routine tables are iterated in
  key order by the source; an association list keeps that order.
\<close>

record PyTritonOptions =
  startAnalysisFromSymbol :: "string option"
  startAnalysisFromAddr :: "uint64 set"
  startAnalysisFromOffset :: "uint64 set"
  stopAnalysisFromAddr :: "uint64 set"
  stopAnalysisFromOffset :: "uint64 set"
  opt_callbackRoutineEntry :: "(string \<times> PyObject) list"
  opt_callbackRoutineExit :: "(string \<times> PyObject) list"

text \<open>
  The lookups of the host API and the two helpers of the repository whose code is not
  in \<^verbatim>\<open>main.cpp\<close> (\<^verbatim>\<open>createIRBuilder\<close>, \<^verbatim>\<open>Inst::isBranch\<close>) are parameters.
\<close>

record host =
  RTN_FindByAddress :: "uint64 \<Rightarrow> RTN"
  RTN_FindNameByAddress :: "uint64 \<Rightarrow> string"
  RTN_FindByName :: "IMG \<Rightarrow> string \<Rightarrow> RTN"
  createIRBuilder :: "INS \<Rightarrow> IRBuilder"
  isBranch :: "Inst \<Rightarrow> bool"

subsection \<open>Events, inserted calls and the state\<close>

datatype hook =
    Py_applyConfBeforeProcessing IRBuilder
  | Py_callbackBeforeIRProc IRBuilder
  | Py_callbackBefore Inst
  | Py_callbackAfter Inst
  | Py_callbackRoutine THREADID PyObject
  | Py_callbackFini
  | Py_callbackSyscallEntry THREADID SYSCALL_STANDARD
  | Py_callbackSyscallExit THREADID SYSCALL_STANDARD
  | Py_callbackImageLoad string uint64 uint64
  | Py_callbackSignals THREADID sint32

datatype event =
    Lock
  | Unlock
  | UpdateCurrentCtxH CONTEXT THREADID
  | Hook hook
  | Py_Finalize
  | Exit int

text \<open>
  What \<^verbatim>\<open>RTN_InsertCall\<close> and \<^verbatim>\<open>INS_InsertCall\<close> register: the analysis function
  with the arguments that are fixed at install time. The arguments the host supplies
  at run time (context, thread id, effective address, branch data, instruction
  pointer) are not part of the registration. The descriptor of an instruction is
  registered by pointer (\<^verbatim>\<open>IARG_PTR, irb\<close>): a pointer is an address of the store of
  descriptors kept in the state. The installer registers only pointers that it has
  allocated.
\<close>

type_synonym IRBuilder_ptr = nat

datatype AFUNPTR =
    AF_toggleWrapper bool
  | AF_callbackRoutineEntry PyObject
  | AF_callbackRoutineExit PyObject
  | AF_callbackBefore IRBuilder_ptr bool
  | AF_callbackAfter
  | AF_callbackLockCheck
  | AF_callbackSnapshot uint32

datatype inserted_call =
    RTN_InsertCall RTN IPOINT AFUNPTR
  | INS_InsertCall INS IPOINT AFUNPTR

record state =
  analysisTrigger :: bool
  events :: "event list"
  currentCtxH :: PINContextHandler
  trace :: "Inst list"
  numberOfBranchesTaken :: nat
  snapshotLocked :: bool
  snapshotMods :: "(uint64 \<times> uint8) list"
  memory :: "uint64 \<Rightarrow> uint8"
  inserted :: "inserted_call list"
  heap_IRBuilder :: "IRBuilder_ptr \<Rightarrow> IRBuilder"
  heap_next :: IRBuilder_ptr

subsection \<open>Trigger and analysis processor\<close>

text \<open>
  Modelled from the spec: the code of \<^verbatim>\<open>Trigger\<close> (\<^verbatim>\<open>Trigger.h\<close>) is not under
  src/. Section 4.1: \<^verbatim>\<open>getState() -> bool\<close>; \<^verbatim>\<open>update(bool)\<close> sets the state
  unconditionally.
\<close>

definition Trigger_getState :: "state \<Rightarrow> bool" where
  "Trigger_getState s = analysisTrigger s"

definition Trigger_update :: "bool \<Rightarrow> state \<Rightarrow> state" where
  "Trigger_update flag s = s\<lparr>analysisTrigger := flag\<rparr>"

text \<open>
  Modelled from the spec: the code of \<^verbatim>\<open>AnalysisProcessor\<close> is not under src/.
  Section 4.2: \<^verbatim>\<open>lock()\<close>/\<^verbatim>\<open>unlock()\<close>, \<^verbatim>\<open>updateCurrentContextHandle(handle)\<close>
  replaces the previous handle, \<^verbatim>\<open>addInstructionToTrace(record)\<close> appends to the
  ordered trace, \<^verbatim>\<open>getLastInstruction()\<close> is the most recently appended record
  (of an empty trace the spec says nothing, and the value is left unspecified),
  \<^verbatim>\<open>isSnapshotLocked()\<close> reads the journal's lock flag, the branch counter counts
  the branches; section 4.5: the journal is an append-only log of (address, byte) pairs.
  The lock itself blocks other threads only; here each call is logged.
\<close>

definition ap_lock :: "state \<Rightarrow> state" where
  "ap_lock s = s\<lparr>events := events s @ [Lock]\<rparr>"

definition ap_unlock :: "state \<Rightarrow> state" where
  "ap_unlock s = s\<lparr>events := events s @ [Unlock]\<rparr>"

definition ap_updateCurrentCtxH :: "CONTEXT \<Rightarrow> THREADID \<Rightarrow> state \<Rightarrow> state" where
  "ap_updateCurrentCtxH ctx threadId s =
     s\<lparr>currentCtxH := \<lparr>ctxh_ctx = ctx, ctxh_threadId = threadId\<rparr>,
       events := events s @ [UpdateCurrentCtxH ctx threadId]\<rparr>"

definition ap_getThreadID :: "state \<Rightarrow> THREADID" where
  "ap_getThreadID s = ctxh_threadId (currentCtxH s)"

definition ap_addInstructionToTrace :: "Inst \<Rightarrow> state \<Rightarrow> state" where
  "ap_addInstructionToTrace inst s = s\<lparr>trace := trace s @ [inst]\<rparr>"

definition ap_getLastInstruction :: "state \<Rightarrow> Inst" where
  "ap_getLastInstruction s = last (trace s)"

definition ap_incNumberOfBranchesTaken :: "bool \<Rightarrow> state \<Rightarrow> state" where
  "ap_incNumberOfBranchesTaken flag s =
     (if flag then s\<lparr>numberOfBranchesTaken := numberOfBranchesTaken s + 1\<rparr> else s)"

definition ap_isSnapshotLocked :: "state \<Rightarrow> bool" where
  "ap_isSnapshotLocked s = snapshotLocked s"

definition ap_addSnapshotModification :: "uint64 \<Rightarrow> uint8 \<Rightarrow> state \<Rightarrow> state" where
  "ap_addSnapshotModification addr byte s = s\<lparr>snapshotMods := snapshotMods s @ [(addr, byte)]\<rparr>"

text \<open>A call of a scripting hook of \<^verbatim>\<open>processingPyConf\<close>, and the two process-level calls.\<close>

definition py_hook :: "hook \<Rightarrow> state \<Rightarrow> state" where
  "py_hook h s = s\<lparr>events := events s @ [Hook h]\<rparr>"

definition log_event :: "event \<Rightarrow> state \<Rightarrow> state" where
  "log_event e s = s\<lparr>events := events s @ [e]\<rparr>"

text \<open>
  Modelled from the spec: \<^verbatim>\<open>IRBuilder::process\<close> is not under src/. Section 3: the
  record identifies the executing thread and is created fresh per executed
  instruction; the remaining fields are exported to it by \<^verbatim>\<open>callbackBefore\<close>.
\<close>

definition irb_process :: "IRBuilder \<Rightarrow> Inst" where
  "irb_process irb =
     \<lparr>inst_threadID = irb_threadID irb, inst_address = irb_address irb,
      inst_nextAddress = 0, inst_opcode = 0, inst_opcodeCategory = 0, inst_operands = [],
      inst_branchTaken = False, inst_branchTargetAddress = 0\<rparr>"

subsection \<open>Trigger toggling and rule evaluation\<close>

definition toggleWrapper :: "bool \<Rightarrow> state \<Rightarrow> state" where
  "toggleWrapper flag s = ap_unlock (Trigger_update flag (ap_lock s))"

definition getBaseAddress :: "host \<Rightarrow> uint64 \<Rightarrow> state \<Rightarrow> uint64 \<times> state" where
  "getBaseAddress h address s =
     (let s1 = ap_lock s;
          rtn = RTN_FindByAddress h address
      in if RTN_Valid rtn then
           (let sec = RTN_Sec rtn
            in if SEC_Valid sec then
                 (let img = SEC_Img sec
                  in if IMG_Valid img then (IMG_LowAddress img, ap_unlock s1)
                     else (0, ap_unlock s1))
               else (0, ap_unlock s1))
         else (0, ap_unlock s1))"

definition getInsOffset :: "host \<Rightarrow> uint64 \<Rightarrow> state \<Rightarrow> uint64 \<times> state" where
  "getInsOffset h address s =
     (case getBaseAddress h address s of
        (base, s1) \<Rightarrow> if base = 0 then (0, s1) else (address - base, s1))"

definition checkLockAnalysis :: "PyTritonOptions \<Rightarrow> host \<Rightarrow> uint64 \<Rightarrow> state \<Rightarrow> state" where
  "checkLockAnalysis opts h address s =
     (if address \<in> stopAnalysisFromAddr opts then toggleWrapper False s
      else (case getInsOffset h address s of
              (off, s1) \<Rightarrow>
                if off \<in> stopAnalysisFromOffset opts then toggleWrapper False s1 else s1))"

definition checkUnlockAnalysis :: "PyTritonOptions \<Rightarrow> host \<Rightarrow> uint64 \<Rightarrow> state \<Rightarrow> state" where
  "checkUnlockAnalysis opts h address s =
     (case startAnalysisFromSymbol opts of
        Some symbol \<Rightarrow>
          if RTN_FindNameByAddress h address = symbol then toggleWrapper True s else s
      | None \<Rightarrow>
          if address \<in> startAnalysisFromAddr opts then toggleWrapper True s
          else (case getInsOffset h address s of
                  (off, s1) \<Rightarrow>
                    if off \<in> startAnalysisFromOffset opts then toggleWrapper True s1 else s1))"

subsection \<open>Per-instruction callbacks\<close>

text \<open>
  \<^verbatim>\<open>callbackBefore\<close> receives the descriptor by pointer and writes its run-time
  fields through the pointer, so they stay in the store until the next call on the
  same instruction overwrites them. The record it creates is owned by the trace by
  pointer too: the fields exported after \<^verbatim>\<open>addInstructionToTrace\<close> are written
  through that pointer, so they change the record that is already the last element of
  the trace. A hook that receives a descriptor or a record is logged with the contents
  at the time of the call.
\<close>

definition irb_update :: "IRBuilder_ptr \<Rightarrow> (IRBuilder \<Rightarrow> IRBuilder) \<Rightarrow> state \<Rightarrow> state" where
  "irb_update irb f s = s\<lparr>heap_IRBuilder := (heap_IRBuilder s)(irb := f (heap_IRBuilder s irb))\<rparr>"

definition export_irb :: "IRBuilder \<Rightarrow> Inst \<Rightarrow> Inst" where
  "export_irb irb inst =
     inst\<lparr>inst_nextAddress := irb_nextAddress irb,
          inst_opcode := irb_opcode irb,
          inst_opcodeCategory := irb_opcodeCategory irb,
          inst_operands := irb_operands irb,
          inst_branchTaken := irb_branchTaken irb,
          inst_branchTargetAddress := irb_branchTargetAddress irb\<rparr>"

definition callbackBefore ::
  "IRBuilder_ptr \<Rightarrow> CONTEXT \<Rightarrow> bool \<Rightarrow> ADDRINT \<Rightarrow> bool \<Rightarrow> ADDRINT \<Rightarrow> THREADID \<Rightarrow> state \<Rightarrow> state" where
  "callbackBefore irb ctx hasEA ea isBranchTaken branchTargetAddress threadId s =
     (if \<not> Trigger_getState s then s
      else
        (let s1 = ap_lock s;
             s2 = py_hook (Py_applyConfBeforeProcessing (heap_IRBuilder s1 irb)) s1;
             s3 = (if hasEA then irb_update irb (\<lambda>b. b\<lparr>irb_ea := Some ea\<rparr>) s2 else s2);
             s4 = ap_updateCurrentCtxH ctx threadId s3;
             s5 = irb_update irb (\<lambda>b. b\<lparr>irb_threadID := ap_getThreadID s4\<rparr>) s4;
             s6 = irb_update irb (\<lambda>b. b\<lparr>irb_branchTaken := isBranchTaken\<rparr>) s5;
             s7 = irb_update irb (\<lambda>b. b\<lparr>irb_branchTargetAddress := branchTargetAddress\<rparr>) s6;
             s8 = py_hook (Py_callbackBeforeIRProc (heap_IRBuilder s7 irb)) s7;
             s9 = ap_addInstructionToTrace (irb_process (heap_IRBuilder s8 irb)) s8;
             s10 = s9\<lparr>trace := butlast (trace s9)
                               @ [export_irb (heap_IRBuilder s9 irb) (last (trace s9))]\<rparr>;
             s11 = py_hook (Py_callbackBefore (last (trace s10))) s10
         in ap_unlock s11))"

text \<open>
  \<^verbatim>\<open>callbackAfter\<close> uses the result of \<^verbatim>\<open>getLastInstruction\<close> without a test, on
  its single path. With an empty trace there is no last record and the source's
  behaviour is undefined; the model follows the same path with an unspecified record
  (\<open>last []\<close>), whose fields no theorem determines.
\<close>

definition callbackAfter :: "host \<Rightarrow> CONTEXT \<Rightarrow> THREADID \<Rightarrow> state \<Rightarrow> state" where
  "callbackAfter h ctx threadId s =
     (if \<not> Trigger_getState s then s
      else
        (let s1 = ap_lock s;
             s2 = ap_updateCurrentCtxH ctx threadId s1;
             inst = ap_getLastInstruction s2;
             s3 = ap_incNumberOfBranchesTaken (isBranch h inst) s2;
             s4 = py_hook (Py_callbackAfter inst) s3
         in ap_unlock s4))"

text \<open>
  The loop of \<^verbatim>\<open>callbackSnapshot\<close>: \<^verbatim>\<open>i\<close> is a 32-bit counter, \<^verbatim>\<open>mem+i\<close> is
  computed on 64 bits, and the byte is read from the memory of the process at the
  moment the callback runs.
\<close>

function snapshot_loop :: "uint64 \<Rightarrow> uint32 \<Rightarrow> uint32 \<Rightarrow> state \<Rightarrow> state" where
  "snapshot_loop mem writeSize i s =
     (if i < writeSize
      then snapshot_loop mem writeSize (i + 1)
             (ap_addSnapshotModification (mem + ucast i) (memory s (mem + ucast i)) s)
      else s)"
  by pat_completeness auto
termination
proof (relation "measure (\<lambda>(mem, writeSize, i, s). unat writeSize - unat i)")
  show "wf (measure (\<lambda>(mem, writeSize, i, s). unat writeSize - unat i))"
    by simp
next
  fix mem :: uint64 and writeSize i :: uint32 and s :: state
  assume lt: "i < writeSize"
  have "i + 1 \<noteq> 0"
  proof
    assume "i + 1 = 0"
    then have "i = - 1" by (simp add: eq_neg_iff_add_eq_0)
    with lt show False by simp
  qed
  then have "unat (i + 1) = Suc (unat i)"
    using unatSuc [of i] by (simp add: add.commute)
  moreover from lt have "unat i < unat writeSize"
    by (simp add: word_less_nat_alt)
  ultimately show
    "((mem, writeSize, i + 1,
       ap_addSnapshotModification (mem + ucast i) (memory s (mem + ucast i)) s),
      (mem, writeSize, i, s))
     \<in> measure (\<lambda>(mem, writeSize, i, s). unat writeSize - unat i)"
    by simp
qed

definition callbackSnapshot :: "uint64 \<Rightarrow> uint32 \<Rightarrow> state \<Rightarrow> state" where
  "callbackSnapshot mem writeSize s =
     (if \<not> Trigger_getState s then s
      else if ap_isSnapshotLocked s then s
      else ap_unlock (snapshot_loop mem writeSize 0 (ap_lock s)))"

definition callbackLockCheck :: "PyTritonOptions \<Rightarrow> host \<Rightarrow> uint64 \<Rightarrow> state \<Rightarrow> state" where
  "callbackLockCheck opts h address s = checkLockAnalysis opts h address s"

subsection \<open>Routine, syscall, image, signal and thread callbacks\<close>

definition callbackRoutineEntry :: "CONTEXT \<Rightarrow> THREADID \<Rightarrow> PyObject \<Rightarrow> state \<Rightarrow> state" where
  "callbackRoutineEntry ctx threadId callback s =
     (if \<not> Trigger_getState s then s
      else
        (let s1 = ap_lock s;
             s2 = ap_updateCurrentCtxH ctx threadId s1;
             s3 = py_hook (Py_callbackRoutine threadId callback) s2
         in ap_unlock s3))"

definition callbackRoutineExit :: "CONTEXT \<Rightarrow> THREADID \<Rightarrow> PyObject \<Rightarrow> state \<Rightarrow> state" where
  "callbackRoutineExit ctx threadId callback s =
     (if \<not> Trigger_getState s then s
      else
        (let s1 = ap_lock s;
             s2 = ap_updateCurrentCtxH ctx threadId s1;
             s3 = py_hook (Py_callbackRoutine threadId callback) s2
         in ap_unlock s3))"

definition callbackFini :: "state \<Rightarrow> state" where
  "callbackFini s = log_event Py_Finalize (py_hook Py_callbackFini s)"

definition callbackSyscallEntry ::
  "THREADID \<Rightarrow> CONTEXT \<Rightarrow> SYSCALL_STANDARD \<Rightarrow> state \<Rightarrow> state" where
  "callbackSyscallEntry threadId ctx std s =
     (if \<not> Trigger_getState s then s
      else
        (let s1 = ap_lock s;
             s2 = ap_updateCurrentCtxH ctx threadId s1;
             s3 = py_hook (Py_callbackSyscallEntry threadId std) s2
         in ap_unlock s3))"

definition callbackSyscallExit ::
  "THREADID \<Rightarrow> CONTEXT \<Rightarrow> SYSCALL_STANDARD \<Rightarrow> state \<Rightarrow> state" where
  "callbackSyscallExit threadId ctx std s =
     (if \<not> Trigger_getState s then s
      else
        (let s1 = ap_lock s;
             s2 = ap_updateCurrentCtxH ctx threadId s1;
             s3 = py_hook (Py_callbackSyscallExit threadId std) s2
         in ap_unlock s3))"

definition callbackImageLoad :: "IMG \<Rightarrow> state \<Rightarrow> state" where
  "callbackImageLoad img s =
     (let s1 = ap_lock s;
          imagePath = IMG_Name img;
          imageBase = IMG_LowAddress img;
          imageSize = (IMG_HighAddress img + 1) - imageBase;
          s2 = py_hook (Py_callbackImageLoad imagePath imageBase imageSize) s1
      in ap_unlock s2)"

text \<open>
  \<^verbatim>\<open>callbackSignals\<close> returns \<^verbatim>\<open>false\<close> on the gated path. On the other path it
  calls \<^verbatim>\<open>exit(0)\<close> and never returns: the result is \<open>None\<close> and the log ends with
  the exit.
\<close>

definition callbackSignals ::
  "THREADID \<Rightarrow> sint32 \<Rightarrow> CONTEXT \<Rightarrow> bool \<Rightarrow> state \<Rightarrow> bool option \<times> state" where
  "callbackSignals threadId sig ctx hasHandler s =
     (if \<not> Trigger_getState s then (Some False, s)
      else
        (let s1 = ap_lock s;
             s2 = ap_updateCurrentCtxH ctx threadId s1;
             s3 = py_hook (Py_callbackSignals threadId sig) s2;
             s4 = ap_unlock s3
         in (None, log_event (Exit 0) s4)))"

definition callbackThreadEntry :: "THREADID \<Rightarrow> CONTEXT \<Rightarrow> sint32 \<Rightarrow> state \<Rightarrow> state" where
  "callbackThreadEntry threadId ctx flags s = ap_unlock (ap_lock s)"

definition callbackThreadExit :: "THREADID \<Rightarrow> CONTEXT \<Rightarrow> sint32 \<Rightarrow> state \<Rightarrow> state" where
  "callbackThreadExit threadId ctx flags s = ap_unlock (ap_lock s)"

text \<open>The signals that \<^verbatim>\<open>main\<close> intercepts with \<^verbatim>\<open>callbackSignals\<close> (Linux numbers).\<close>

definition SIGILL :: sint32 where "SIGILL = 4"
definition SIGFPE :: sint32 where "SIGFPE = 8"
definition SIGKILL :: sint32 where "SIGKILL = 9"
definition SIGSEGV :: sint32 where "SIGSEGV = 11"
definition SIGPIPE :: sint32 where "SIGPIPE = 13"

definition intercepted_signals :: "sint32 list" where
  "intercepted_signals = [SIGFPE, SIGILL, SIGKILL, SIGPIPE, SIGSEGV]"

subsection \<open>The installer\<close>

definition insert_call :: "inserted_call \<Rightarrow> state \<Rightarrow> state" where
  "insert_call c s = s\<lparr>inserted := inserted s @ [c]\<rparr>"

fun routineEntry_loop :: "host \<Rightarrow> IMG \<Rightarrow> (string \<times> PyObject) list \<Rightarrow> state \<Rightarrow> state" where
  "routineEntry_loop h img [] s = s"
| "routineEntry_loop h img (it # rest) s =
     (let targetRTN = RTN_FindByName h img (fst it)
      in routineEntry_loop h img rest
           (if RTN_Valid targetRTN
            then insert_call (RTN_InsertCall targetRTN IPOINT_BEFORE
                                (AF_callbackRoutineEntry (snd it))) s
            else s))"

fun routineExit_loop :: "host \<Rightarrow> IMG \<Rightarrow> (string \<times> PyObject) list \<Rightarrow> state \<Rightarrow> state" where
  "routineExit_loop h img [] s = s"
| "routineExit_loop h img (it # rest) s =
     (let targetRTN = RTN_FindByName h img (fst it)
      in routineExit_loop h img rest
           (if RTN_Valid targetRTN
            then insert_call (RTN_InsertCall targetRTN IPOINT_AFTER
                                (AF_callbackRoutineExit (snd it))) s
            else s))"

definition IMG_Instrumentation :: "PyTritonOptions \<Rightarrow> host \<Rightarrow> IMG \<Rightarrow> state \<Rightarrow> state" where
  "IMG_Instrumentation opts h img s =
     (let s1 = (case startAnalysisFromSymbol opts of
                  None \<Rightarrow> s
                | Some symbol \<Rightarrow>
                    (let targetRTN = RTN_FindByName h img symbol
                     in if RTN_Valid targetRTN
                        then insert_call (RTN_InsertCall targetRTN IPOINT_AFTER
                                            (AF_toggleWrapper False)) s
                        else s));
          s2 = routineEntry_loop h img (opt_callbackRoutineEntry opts) s1;
          s3 = routineExit_loop h img (opt_callbackRoutineExit opts) s2
      in if IMG_Valid img then callbackImageLoad img s3 else s3)"

text \<open>
  \<^verbatim>\<open>createIRBuilder(ins)\<close> returns a pointer to a new descriptor: the contents that
  the factory builds are the host parameter, the allocation takes the next free
  address of the store.
\<close>

definition new_IRBuilder :: "host \<Rightarrow> INS \<Rightarrow> state \<Rightarrow> IRBuilder_ptr \<times> state" where
  "new_IRBuilder h ins s =
     (heap_next s,
      s\<lparr>heap_IRBuilder := (heap_IRBuilder s)(heap_next s := createIRBuilder h ins),
        heap_next := Suc (heap_next s)\<rparr>)"

text \<open>
  The body of the instruction loop of \<^verbatim>\<open>TRACE_Instrumentation\<close> after the trigger
  test: the insertions for one instruction, in the order of the source.
\<close>

definition instrument_ins :: "host \<Rightarrow> INS \<Rightarrow> state \<Rightarrow> state" where
  "instrument_ins h ins s =
     (let irb = fst (new_IRBuilder h ins s);
          s0 = snd (new_IRBuilder h ins s);
          s1 = (if INS_MemoryOperandCount ins > 0
                then insert_call (INS_InsertCall ins IPOINT_BEFORE (AF_callbackBefore irb True)) s0
                else insert_call (INS_InsertCall ins IPOINT_BEFORE (AF_callbackBefore irb False)) s0);
          s2 = (if INS_IsSyscall ins = False
                then
                  (let where = (if INS_HasFallThrough ins = False
                                then IPOINT_TAKEN_BRANCH else IPOINT_AFTER)
                   in insert_call (INS_InsertCall ins where AF_callbackLockCheck)
                        (insert_call (INS_InsertCall ins where AF_callbackAfter) s1))
                else s1)
      in if INS_OperandCount ins > 1 \<and> INS_MemoryOperandIsWritten ins 0
         then insert_call (INS_InsertCall ins IPOINT_BEFORE
                             (AF_callbackSnapshot (INS_MemoryWriteSize ins))) s2
         else s2)"

text \<open>
  The two nested loops. The boolean of the result says that the \<^verbatim>\<open>return\<close> in the
  loop body was taken, which leaves both loops.
\<close>

fun ins_loop :: "PyTritonOptions \<Rightarrow> host \<Rightarrow> INS list \<Rightarrow> state \<Rightarrow> bool \<times> state" where
  "ins_loop opts h [] s = (False, s)"
| "ins_loop opts h (ins # rest) s =
     (let s1 = checkUnlockAnalysis opts h (INS_Address ins) s
      in if \<not> Trigger_getState s1 then (True, s1)
         else ins_loop opts h rest (instrument_ins h ins s1))"

fun bbl_loop :: "PyTritonOptions \<Rightarrow> host \<Rightarrow> BBL list \<Rightarrow> state \<Rightarrow> state" where
  "bbl_loop opts h [] s = s"
| "bbl_loop opts h (bbl # rest) s =
     (case ins_loop opts h bbl s of
        (returned, s1) \<Rightarrow> if returned then s1 else bbl_loop opts h rest s1)"

definition TRACE_Instrumentation :: "PyTritonOptions \<Rightarrow> host \<Rightarrow> TRACE \<Rightarrow> state \<Rightarrow> state" where
  "TRACE_Instrumentation opts h trace_arg s = bbl_loop opts h trace_arg s"

subsection \<open>The host calling back\<close>

text \<open>
  The arguments that the host computes when an inserted call fires. For a call
  inserted on an instruction, \<^verbatim>\<open>IARG_INST_PTR\<close> is the address of that instruction.
  Where the installer passed the constant \<^verbatim>\<open>IARG_ADDRINT, 0\<close> instead of the
  effective address, the callback receives 0.
\<close>

record IARGS =
  IARG_CONTEXT :: CONTEXT
  IARG_THREAD_ID :: THREADID
  IARG_MEMORYOP_EA :: ADDRINT
  IARG_BRANCH_TAKEN :: bool
  IARG_BRANCH_TARGET_ADDR :: ADDRINT
  IARG_INST_PTR :: ADDRINT

fun fire_afun :: "PyTritonOptions \<Rightarrow> host \<Rightarrow> AFUNPTR \<Rightarrow> IARGS \<Rightarrow> state \<Rightarrow> state" where
  "fire_afun opts h (AF_toggleWrapper flag) a s = toggleWrapper flag s"
| "fire_afun opts h (AF_callbackRoutineEntry callback) a s =
     callbackRoutineEntry (IARG_CONTEXT a) (IARG_THREAD_ID a) callback s"
| "fire_afun opts h (AF_callbackRoutineExit callback) a s =
     callbackRoutineExit (IARG_CONTEXT a) (IARG_THREAD_ID a) callback s"
| "fire_afun opts h (AF_callbackBefore irb hasEA) a s =
     callbackBefore irb (IARG_CONTEXT a) hasEA (if hasEA then IARG_MEMORYOP_EA a else 0)
       (IARG_BRANCH_TAKEN a) (IARG_BRANCH_TARGET_ADDR a) (IARG_THREAD_ID a) s"
| "fire_afun opts h AF_callbackAfter a s = callbackAfter h (IARG_CONTEXT a) (IARG_THREAD_ID a) s"
| "fire_afun opts h AF_callbackLockCheck a s = callbackLockCheck opts h (IARG_INST_PTR a) s"
| "fire_afun opts h (AF_callbackSnapshot writeSize) a s =
     callbackSnapshot (IARG_MEMORYOP_EA a) writeSize s"

fun fire :: "PyTritonOptions \<Rightarrow> host \<Rightarrow> inserted_call \<Rightarrow> IARGS \<Rightarrow> state \<Rightarrow> state" where
  "fire opts h (RTN_InsertCall rtn where af) a s = fire_afun opts h af a s"
| "fire opts h (INS_InsertCall ins where af) a s =
     fire_afun opts h af (a\<lparr>IARG_INST_PTR := INS_Address ins\<rparr>) s"

text \<open>
  The host executing one instruction. The host is not part of the repository; the
  spec (sections 1, 4.3 and 6) takes it as the black box that calls back at the
  instrumentation points: before an instruction and after it. Executing the
  instruction at \<open>address\<close> up to its after point fires the calls registered on the
  instructions at this address: first those at \<^verbatim>\<open>IPOINT_BEFORE\<close>, then, once the
  instruction has executed and control passes the point where the installer put them
  (\<^verbatim>\<open>IPOINT_AFTER\<close> or \<^verbatim>\<open>IPOINT_TAKEN_BRANCH\<close>), those at the after point; the calls
  at one point fire in the order of their registration. The arguments computed before
  and after the instruction are \<open>a\<close> and \<open>a'\<close>.
\<close>

definition after_point :: "INS \<Rightarrow> IPOINT" where
  "after_point ins = (if INS_HasFallThrough ins = False then IPOINT_TAKEN_BRANCH else IPOINT_AFTER)"

fun call_point :: "inserted_call \<Rightarrow> IPOINT" where
  "call_point (RTN_InsertCall rtn where af) = where"
| "call_point (INS_InsertCall ins where af) = where"

fun call_address :: "inserted_call \<Rightarrow> uint64 option" where
  "call_address (RTN_InsertCall rtn where af) = None"
| "call_address (INS_InsertCall ins where af) = Some (INS_Address ins)"

fun fire_all ::
  "PyTritonOptions \<Rightarrow> host \<Rightarrow> inserted_call list \<Rightarrow> IARGS \<Rightarrow> state \<Rightarrow> state" where
  "fire_all opts h [] a s = s"
| "fire_all opts h (c # cs) a s = fire_all opts h cs a (fire opts h c a s)"

definition execute_ins ::
  "PyTritonOptions \<Rightarrow> host \<Rightarrow> inserted_call list \<Rightarrow> uint64 \<Rightarrow> IARGS \<Rightarrow> IARGS \<Rightarrow> state
     \<Rightarrow> state" where
  "execute_ins opts h cs address a a' s =
     (let here = filter (\<lambda>c. call_address c = Some address) cs;
          s1 = fire_all opts h (filter (\<lambda>c. call_point c = IPOINT_BEFORE) here) a s
      in fire_all opts h (filter (\<lambda>c. call_point c \<noteq> IPOINT_BEFORE) here) a' s1)"

text \<open>Every way in which the host enters \<^verbatim>\<open>main.cpp\<close> after \<^verbatim>\<open>main\<close> has registered it.\<close>

datatype invocation =
    Run_inserted inserted_call IARGS
  | Run_IMG_Instrumentation IMG
  | Run_TRACE_Instrumentation TRACE
  | Run_callbackFini
  | Run_callbackSyscallEntry THREADID CONTEXT SYSCALL_STANDARD
  | Run_callbackSyscallExit THREADID CONTEXT SYSCALL_STANDARD
  | Run_callbackSignals THREADID sint32 CONTEXT bool
  | Run_callbackThreadEntry THREADID CONTEXT sint32
  | Run_callbackThreadExit THREADID CONTEXT sint32

fun invoke :: "PyTritonOptions \<Rightarrow> host \<Rightarrow> invocation \<Rightarrow> state \<Rightarrow> state" where
  "invoke opts h (Run_inserted c a) s = fire opts h c a s"
| "invoke opts h (Run_IMG_Instrumentation img) s = IMG_Instrumentation opts h img s"
| "invoke opts h (Run_TRACE_Instrumentation tr) s = TRACE_Instrumentation opts h tr s"
| "invoke opts h Run_callbackFini s = callbackFini s"
| "invoke opts h (Run_callbackSyscallEntry threadId ctx std) s =
     callbackSyscallEntry threadId ctx std s"
| "invoke opts h (Run_callbackSyscallExit threadId ctx std) s =
     callbackSyscallExit threadId ctx std s"
| "invoke opts h (Run_callbackSignals threadId sig ctx hasHandler) s =
     snd (callbackSignals threadId sig ctx hasHandler s)"
| "invoke opts h (Run_callbackThreadEntry threadId ctx flags) s =
     callbackThreadEntry threadId ctx flags s"
| "invoke opts h (Run_callbackThreadExit threadId ctx flags) s =
     callbackThreadExit threadId ctx flags s"

fun is_Exit :: "event \<Rightarrow> bool" where
  "is_Exit (Exit c) = True"
| "is_Exit e = False"

definition process_exited :: "state \<Rightarrow> bool" where
  "process_exited s = list_ex is_Exit (events s)"

text \<open>A run of the process: the host's invocations in order, none after the exit.\<close>

fun run :: "PyTritonOptions \<Rightarrow> host \<Rightarrow> invocation list \<Rightarrow> state \<Rightarrow> state" where
  "run opts h [] s = s"
| "run opts h (i # is) s =
     (if process_exited s then s else run opts h is (invoke opts h i s))"

subsection \<open>Observations on a callback invocation\<close>

text \<open>The events, journal entries and registrations that a step from \<open>s\<close> to \<open>s'\<close> added.\<close>

definition emitted :: "state \<Rightarrow> state \<Rightarrow> event list" where
  "emitted s s' = drop (length (events s)) (events s')"

definition journaled :: "state \<Rightarrow> state \<Rightarrow> (uint64 \<times> uint8) list" where
  "journaled s s' = drop (length (snapshotMods s)) (snapshotMods s')"

definition installed :: "state \<Rightarrow> state \<Rightarrow> inserted_call list" where
  "installed s s' = drop (length (inserted s)) (inserted s')"

fun is_Hook :: "event \<Rightarrow> bool" where
  "is_Hook (Hook x) = True"
| "is_Hook e = False"

text \<open>
  The discipline of the non-reentrant lock over a sequence of events: scanning with
  the flag "held", an acquisition while held or a release while free is a violation
  (\<open>None\<close>); \<open>lock_ok\<close> starts free and must end free.
\<close>

fun lock_scan :: "bool \<Rightarrow> event list \<Rightarrow> bool option" where
  "lock_scan held [] = Some held"
| "lock_scan held (Lock # es) = (if held then None else lock_scan True es)"
| "lock_scan held (Unlock # es) = (if held then lock_scan False es else None)"
| "lock_scan held (e # es) = lock_scan held es"

definition lock_ok :: "event list \<Rightarrow> bool" where
  "lock_ok es = (lock_scan False es = Some False)"

text \<open>
  A step from \<open>s\<close> to \<open>s'\<close> keeps the log of \<open>s\<close> and the events it adds respect
  the lock discipline.
\<close>

definition lock_discipline :: "state \<Rightarrow> state \<Rightarrow> bool" where
  "lock_discipline s s' = (events s' = events s @ emitted s s' \<and> lock_ok (emitted s s'))"

text \<open>The callbacks that start with the test of the trigger.\<close>

fun gated_afun :: "AFUNPTR \<Rightarrow> bool" where
  "gated_afun (AF_toggleWrapper flag) = False"
| "gated_afun AF_callbackLockCheck = False"
| "gated_afun af = True"

fun gated :: "invocation \<Rightarrow> bool" where
  "gated (Run_inserted (RTN_InsertCall rtn where af) a) = gated_afun af"
| "gated (Run_inserted (INS_InsertCall ins where af) a) = gated_afun af"
| "gated (Run_callbackSyscallEntry threadId ctx std) = True"
| "gated (Run_callbackSyscallExit threadId ctx std) = True"
| "gated (Run_callbackSignals threadId sig ctx hasHandler) = True"
| "gated i = False"

text \<open>
  Whether the nested tests of \<^verbatim>\<open>getBaseAddress\<close> find a valid routine, section and
  image for an address, and what the rule evaluation compares: the offset that
  \<^verbatim>\<open>getInsOffset\<close> returns, and the condition under which \<^verbatim>\<open>checkUnlockAnalysis\<close>
  calls \<^verbatim>\<open>toggleWrapper(true)\<close>.
\<close>

definition module_resolved :: "host \<Rightarrow> uint64 \<Rightarrow> bool" where
  "module_resolved h address =
     (RTN_Valid (RTN_FindByAddress h address)
      \<and> SEC_Valid (RTN_Sec (RTN_FindByAddress h address))
      \<and> IMG_Valid (SEC_Img (RTN_Sec (RTN_FindByAddress h address))))"

definition ins_offset :: "host \<Rightarrow> uint64 \<Rightarrow> uint64" where
  "ins_offset h address =
     (let base = (if module_resolved h address
                  then IMG_LowAddress (SEC_Img (RTN_Sec (RTN_FindByAddress h address))) else 0)
      in if base = 0 then 0 else address - base)"

definition unlock_rule_matches :: "PyTritonOptions \<Rightarrow> host \<Rightarrow> uint64 \<Rightarrow> bool" where
  "unlock_rule_matches opts h address =
     (case startAnalysisFromSymbol opts of
        Some symbol \<Rightarrow> RTN_FindNameByAddress h address = symbol
      | None \<Rightarrow> address \<in> startAnalysisFromAddr opts
                \<or> ins_offset h address \<in> startAnalysisFromOffset opts)"

text \<open>
  The invocations that can switch the trigger on: an inserted \<^verbatim>\<open>toggleWrapper(true)\<close>
  and the instrumentation of a trace with an instruction whose address matches an
  activation rule.
\<close>

fun activating :: "PyTritonOptions \<Rightarrow> host \<Rightarrow> invocation \<Rightarrow> bool" where
  "activating opts h (Run_inserted (RTN_InsertCall rtn where af) a) = (af = AF_toggleWrapper True)"
| "activating opts h (Run_inserted (INS_InsertCall ins where af) a) = (af = AF_toggleWrapper True)"
| "activating opts h (Run_TRACE_Instrumentation tr) =
     list_ex (\<lambda>ins. unlock_rule_matches opts h (INS_Address ins)) (concat tr)"
| "activating opts h i = False"

text \<open>
  The registrations that \<^verbatim>\<open>TRACE_Instrumentation\<close> can make: on an instruction, the
  before callback and the snapshot callback, and the after callback and the lock
  check only where the instruction is not a system call.
\<close>

fun trace_call_ok :: "inserted_call \<Rightarrow> bool" where
  "trace_call_ok (INS_InsertCall ins where (AF_callbackBefore irb hasEA)) = True"
| "trace_call_ok (INS_InsertCall ins where (AF_callbackSnapshot n)) = True"
| "trace_call_ok (INS_InsertCall ins where AF_callbackAfter) = (INS_IsSyscall ins = False)"
| "trace_call_ok (INS_InsertCall ins where AF_callbackLockCheck) = (INS_IsSyscall ins = False)"
| "trace_call_ok c = False"

fun is_snapshot_call :: "inserted_call \<Rightarrow> bool" where
  "is_snapshot_call (INS_InsertCall ins where (AF_callbackSnapshot n)) = True"
| "is_snapshot_call c = False"

subsection \<open>A concrete process\<close>

text \<open>
  One image \<^verbatim>\<open>a.out\<close> at \<open>0x400000..0x4fffff\<close> whose routine \<^verbatim>\<open>main\<close> is at
  \<open>0x401000\<close>; addresses outside the image resolve to no routine. The memory holds at
  every address the low byte of the address.
\<close>

definition img0 :: IMG where
  "img0 = \<lparr>IMG_Valid = True, IMG_Name = ''a.out'',
           IMG_LowAddress = 0x400000, IMG_HighAddress = 0x4fffff\<rparr>"

definition no_img :: IMG where
  "no_img = \<lparr>IMG_Valid = False, IMG_Name = [], IMG_LowAddress = 0, IMG_HighAddress = 0\<rparr>"

definition rtn0 :: RTN where
  "rtn0 = \<lparr>RTN_Valid = True, RTN_Sec = \<lparr>SEC_Valid = True, SEC_Img = img0\<rparr>\<rparr>"

definition no_rtn :: RTN where
  "no_rtn = \<lparr>RTN_Valid = False, RTN_Sec = \<lparr>SEC_Valid = False, SEC_Img = no_img\<rparr>\<rparr>"

definition irb0 :: "uint64 \<Rightarrow> IRBuilder" where
  "irb0 address =
     \<lparr>irb_address = address, irb_nextAddress = address + 1, irb_opcode = 0,
      irb_opcodeCategory = 0, irb_operands = [], irb_ea = None, irb_threadID = 0,
      irb_branchTaken = False, irb_branchTargetAddress = 0\<rparr>"

definition host0 :: host where
  "host0 =
     \<lparr>RTN_FindByAddress = (\<lambda>a. if 0x400000 \<le> a \<and> a \<le> 0x4fffff then rtn0 else no_rtn),
      RTN_FindNameByAddress = (\<lambda>a. if a = 0x401000 then ''main'' else []),
      RTN_FindByName = (\<lambda>img name. if name = ''main'' then rtn0 else no_rtn),
      createIRBuilder = (\<lambda>ins. irb0 (INS_Address ins)),
      isBranch = (\<lambda>i. False)\<rparr>"

definition state0 :: state where
  "state0 =
     \<lparr>analysisTrigger = False, events = [],
      currentCtxH = \<lparr>ctxh_ctx = 0, ctxh_threadId = 0\<rparr>, trace = [],
      numberOfBranchesTaken = 0, snapshotLocked = False, snapshotMods = [],
      memory = (\<lambda>a. ucast a), inserted = [],
      heap_IRBuilder = (\<lambda>p. irb0 0), heap_next = 0\<rparr>"

definition state1 :: state where
  "state1 = state0\<lparr>analysisTrigger := True\<rparr>"

definition args0 :: IARGS where
  "args0 = \<lparr>IARG_CONTEXT = 7, IARG_THREAD_ID = 1, IARG_MEMORYOP_EA = 0x400ffe,
            IARG_BRANCH_TAKEN = False, IARG_BRANCH_TARGET_ADDR = 0, IARG_INST_PTR = 0\<rparr>"

text \<open>Rule sets: a start symbol together with a start address and a start offset.\<close>

definition opts_symbol :: PyTritonOptions where
  "opts_symbol =
     \<lparr>startAnalysisFromSymbol = Some ''main'', startAnalysisFromAddr = {0x400500},
      startAnalysisFromOffset = {0x500}, stopAnalysisFromAddr = {0x4010a0},
      stopAnalysisFromOffset = {}, opt_callbackRoutineEntry = [],
      opt_callbackRoutineExit = []\<rparr>"

text \<open>Rule sets without a start symbol, with the offset 0 configured on both sides.\<close>

definition opts_offset0 :: PyTritonOptions where
  "opts_offset0 =
     \<lparr>startAnalysisFromSymbol = None, startAnalysisFromAddr = {},
      startAnalysisFromOffset = {0}, stopAnalysisFromAddr = {},
      stopAnalysisFromOffset = {0}, opt_callbackRoutineEntry = [],
      opt_callbackRoutineExit = []\<rparr>"

definition ins_syscall :: INS where
  "ins_syscall =
     \<lparr>INS_Address = 0x4010a0, INS_MemoryOperandCount = 0, INS_OperandCount = 0,
      INS_MemoryOperandIsWritten = (\<lambda>i. False), INS_MemoryWriteSize = 0,
      INS_IsSyscall = True, INS_HasFallThrough = True\<rparr>"

definition ins_store :: INS where
  "ins_store =
     \<lparr>INS_Address = 0x4010a0, INS_MemoryOperandCount = 1, INS_OperandCount = 2,
      INS_MemoryOperandIsWritten = (\<lambda>i. i = 0), INS_MemoryWriteSize = 4,
      INS_IsSyscall = False, INS_HasFallThrough = True\<rparr>"

text \<open>
  What the host does for the instruction that follows: it instruments the trace that
  starts there and fires the calls registered on the instruction.
\<close>

definition ins_next :: INS where
  "ins_next = ins_store\<lparr>INS_Address := 0x4010a4\<rparr>"

definition next_instruction :: "invocation list" where
  "next_instruction =
     [Run_TRACE_Instrumentation [[ins_next]],
      Run_inserted (INS_InsertCall ins_next IPOINT_BEFORE (AF_callbackBefore 1 True)) args0,
      Run_inserted (INS_InsertCall ins_next IPOINT_BEFORE (AF_callbackSnapshot 4)) args0,
      Run_inserted (INS_InsertCall ins_next IPOINT_AFTER AF_callbackAfter) args0,
      Run_inserted (INS_InsertCall ins_next IPOINT_AFTER AF_callbackLockCheck) args0]"

text \<open>
  Two runs from the state with the active trigger and the stop address \<open>0x4010a0\<close>.
  In the first the instruction at the stop address is a system call: the host
  instruments the trace that holds it and executes it, then instruments and executes
  the instruction that follows. In the second the instruction at the stop address is
  the store.
\<close>

definition syscall_instrumented :: state where
  "syscall_instrumented = TRACE_Instrumentation opts_symbol host0 [[ins_syscall]] state1"

definition syscall_executed :: state where
  "syscall_executed =
     execute_ins opts_symbol host0 (inserted syscall_instrumented) (INS_Address ins_syscall)
       args0 args0 syscall_instrumented"

definition syscall_next_executed :: state where
  "syscall_next_executed =
     execute_ins opts_symbol host0
       (inserted (TRACE_Instrumentation opts_symbol host0 [[ins_next]] syscall_executed))
       (INS_Address ins_next) args0 args0
       (TRACE_Instrumentation opts_symbol host0 [[ins_next]] syscall_executed)"

definition store_instrumented :: state where
  "store_instrumented = TRACE_Instrumentation opts_symbol host0 [[ins_store]] state1"

section \<open>Properties\<close>

subsection \<open>Unfolding and frame lemmas\<close>

declare snapshot_loop.simps [simp del]

lemmas ap_defs = Trigger_getState_def Trigger_update_def ap_lock_def ap_unlock_def
  ap_updateCurrentCtxH_def ap_getThreadID_def ap_addInstructionToTrace_def
  ap_getLastInstruction_def ap_incNumberOfBranchesTaken_def ap_isSnapshotLocked_def
  ap_addSnapshotModification_def py_hook_def log_event_def insert_call_def irb_update_def
  new_IRBuilder_def

lemmas rule_defs = toggleWrapper_def getBaseAddress_def getInsOffset_def
  checkLockAnalysis_def checkUnlockAnalysis_def callbackLockCheck_def

lemmas concrete_defs = img0_def no_img_def rtn0_def no_rtn_def irb0_def host0_def
  state0_def state1_def args0_def opts_symbol_def opts_offset0_def ins_syscall_def
  ins_store_def ins_next_def next_instruction_def syscall_instrumented_def
  syscall_executed_def syscall_next_executed_def store_instrumented_def

text \<open>
  What the rule evaluation does to the state, as equations. A call of \<^verbatim>\<open>getInsOffset\<close>
  takes and releases the lock once (inside \<^verbatim>\<open>getBaseAddress\<close>), and so does a call of
  \<^verbatim>\<open>toggleWrapper\<close>.
\<close>

lemma getInsOffset_eq:
  "getInsOffset h address s = (ins_offset h address, s\<lparr>events := events s @ [Lock, Unlock]\<rparr>)"
  by (simp add: getInsOffset_def getBaseAddress_def ins_offset_def module_resolved_def
      ap_defs Let_def)

lemma toggleWrapper_eq:
  "toggleWrapper flag s = s\<lparr>analysisTrigger := flag, events := events s @ [Lock, Unlock]\<rparr>"
  by (simp add: toggleWrapper_def ap_defs)

lemma checkLockAnalysis_eq:
  "checkLockAnalysis opts h address s =
     (if address \<in> stopAnalysisFromAddr opts
      then s\<lparr>analysisTrigger := False, events := events s @ [Lock, Unlock]\<rparr>
      else if ins_offset h address \<in> stopAnalysisFromOffset opts
      then s\<lparr>analysisTrigger := False, events := events s @ [Lock, Unlock, Lock, Unlock]\<rparr>
      else s\<lparr>events := events s @ [Lock, Unlock]\<rparr>)"
  by (simp add: checkLockAnalysis_def getInsOffset_eq toggleWrapper_eq)

lemma checkUnlockAnalysis_eq:
  "checkUnlockAnalysis opts h address s =
     (case startAnalysisFromSymbol opts of
        Some symbol \<Rightarrow>
          if RTN_FindNameByAddress h address = symbol
          then s\<lparr>analysisTrigger := True, events := events s @ [Lock, Unlock]\<rparr> else s
      | None \<Rightarrow>
          if address \<in> startAnalysisFromAddr opts
          then s\<lparr>analysisTrigger := True, events := events s @ [Lock, Unlock]\<rparr>
          else if ins_offset h address \<in> startAnalysisFromOffset opts
          then s\<lparr>analysisTrigger := True, events := events s @ [Lock, Unlock, Lock, Unlock]\<rparr>
          else s\<lparr>events := events s @ [Lock, Unlock]\<rparr>)"
  by (simp add: checkUnlockAnalysis_def getInsOffset_eq toggleWrapper_eq split: option.split)

subsection \<open>Routine entry and routine exit\<close>

text \<open>
  Claim C9. The routine-entry callback and the routine-exit callback are the same
  function of context, thread id, callback handle and state: both test the trigger
  and, when it is active, take the lock, replace the current context handle, call the
  routine hook of the scripting layer with the thread id and the handle, and release
  the lock; when it is inactive both do nothing.
\<close>

theorem routine_entry_exit_identical:
  "callbackRoutineEntry ctx threadId callback s = callbackRoutineExit ctx threadId callback s
   \<and> emitted s (callbackRoutineEntry ctx threadId callback s) =
       (if analysisTrigger s
        then [Lock, UpdateCurrentCtxH ctx threadId,
              Hook (Py_callbackRoutine threadId callback), Unlock]
        else [])
   \<and> emitted s (callbackRoutineExit ctx threadId callback s) =
       (if analysisTrigger s
        then [Lock, UpdateCurrentCtxH ctx threadId,
              Hook (Py_callbackRoutine threadId callback), Unlock]
        else [])"
  by (simp add: callbackRoutineEntry_def callbackRoutineExit_def emitted_def ap_defs)

subsection \<open>Signals\<close>

text \<open>
  Claim C2, as stated, fails: with the trigger inactive the signal callback returns
  \<^verbatim>\<open>false\<close> at once. It forwards nothing to the scripting layer and does not
  terminate the process.
\<close>

theorem signals_inactive_counterexample:
  "\<not> analysisTrigger state0
   \<and> fst (callbackSignals 1 SIGSEGV 7 False state0) = Some False
   \<and> emitted state0 (snd (callbackSignals 1 SIGSEGV 7 False state0)) = []"
  by (simp add: callbackSignals_def emitted_def ap_defs state0_def)

text \<open>
  Claim C2, amended. For every intercepted signal: when the trigger is active, the
  callback takes the lock, replaces the current context handle, forwards the signal
  exactly once to the signal hook, releases the lock and then terminates the process
  with \<^verbatim>\<open>exit(0)\<close>, so it never returns; when the trigger is inactive, it returns
  \<^verbatim>\<open>false\<close> and the state is unchanged.
\<close>

theorem callbackSignals_gated:
  assumes "sig \<in> set intercepted_signals"
  shows "callbackSignals threadId sig ctx hasHandler s =
     (if analysisTrigger s
      then (None, s\<lparr>currentCtxH := \<lparr>ctxh_ctx = ctx, ctxh_threadId = threadId\<rparr>,
                    events := events s @ [Lock, UpdateCurrentCtxH ctx threadId,
                      Hook (Py_callbackSignals threadId sig), Unlock, Exit 0]\<rparr>)
      else (Some False, s))"
  by (simp add: callbackSignals_def ap_defs)

text \<open>Claim C2, amended, at a segmentation fault with the trigger active and inactive.\<close>

theorem callbackSignals_gated_witness:
  "SIGSEGV \<in> set intercepted_signals
   \<and> fst (callbackSignals 1 SIGSEGV 7 False state1) = None
   \<and> events (snd (callbackSignals 1 SIGSEGV 7 False state1)) =
       [Lock, UpdateCurrentCtxH 7 1, Hook (Py_callbackSignals 1 SIGSEGV), Unlock, Exit 0]
   \<and> callbackSignals 1 SIGSEGV 7 False state0 = (Some False, state0)"
proof -
  have m: "SIGSEGV \<in> set intercepted_signals"
    by (simp add: intercepted_signals_def)
  have a: "analysisTrigger state1" "events state1 = []" "\<not> analysisTrigger state0"
    by (simp_all add: state1_def state0_def)
  show ?thesis
    using m callbackSignals_gated [OF m, of 1 7 False state1]
      callbackSignals_gated [OF m, of 1 7 False state0] a
    by simp
qed

subsection \<open>Activation rules\<close>

text \<open>
  Claim C3 against the code. With the start symbol \<^verbatim>\<open>main\<close> configured, the address
  \<open>0x400500\<close> is in the start addresses and its offset \<open>0x500\<close> is in the start
  offsets, but it is not in the routine \<^verbatim>\<open>main\<close>: \<^verbatim>\<open>checkUnlockAnalysis\<close> leaves the
  trigger inactive, because the tests of the address and of the offset hang on the
  \<^verbatim>\<open>else\<close> of the test that a symbol is configured.
\<close>

theorem checkUnlockAnalysis_symbol_shadows_rules:
  "startAnalysisFromSymbol opts_symbol = Some ''main''
   \<and> RTN_FindNameByAddress host0 0x400500 \<noteq> ''main''
   \<and> 0x400500 \<in> startAnalysisFromAddr opts_symbol
   \<and> ins_offset host0 0x400500 \<in> startAnalysisFromOffset opts_symbol
   \<and> \<not> analysisTrigger state0
   \<and> \<not> analysisTrigger (checkUnlockAnalysis opts_symbol host0 0x400500 state0)"
  by (simp add: rule_defs ap_defs concrete_defs ins_offset_def module_resolved_def)

subsection \<open>Offsets of addresses without a module\<close>

text \<open>
  Claim C4, as stated, fails: the value returned for an address without a valid
  module is 0, and 0 can be configured as an offset. With 0 among the stop offsets the
  stop rule matches at the unresolved address \<open>0x10\<close> and switches the trigger off; with
  0 among the start offsets the start rule matches there and switches it on.
\<close>

theorem unresolved_offset_zero_counterexample:
  "\<not> module_resolved host0 0x10
   \<and> fst (getInsOffset host0 0x10 state1) \<in> stopAnalysisFromOffset opts_offset0
   \<and> analysisTrigger state1
   \<and> \<not> analysisTrigger (checkLockAnalysis opts_offset0 host0 0x10 state1)
   \<and> fst (getInsOffset host0 0x10 state0) \<in> startAnalysisFromOffset opts_offset0
   \<and> \<not> analysisTrigger state0
   \<and> analysisTrigger (checkUnlockAnalysis opts_offset0 host0 0x10 state0)"
  by (simp add: rule_defs ap_defs concrete_defs module_resolved_def)

text \<open>
  Claim C4, amended. For every address whose owning module cannot be resolved, offset
  resolution returns 0. The offset-based stop rule and start rule match at such an
  address exactly when 0 is a member of the configured stop offsets, respectively
  start offsets; when 0 is not configured they never match. Accordingly, at an
  address that is not a stop address the stop-rule check leaves the trigger active
  exactly when it was active and 0 is not a stop offset, and, with no start symbol and
  an address that is not a start address, the activation check yields an active
  trigger exactly when it was active or 0 is a start offset.
\<close>

theorem unresolved_module_offset_rules:
  assumes "\<not> module_resolved h address"
  shows "fst (getInsOffset h address s) = 0
    \<and> (fst (getInsOffset h address s) \<in> stopAnalysisFromOffset opts)
        = (0 \<in> stopAnalysisFromOffset opts)
    \<and> (fst (getInsOffset h address s) \<in> startAnalysisFromOffset opts)
        = (0 \<in> startAnalysisFromOffset opts)
    \<and> (address \<notin> stopAnalysisFromAddr opts \<longrightarrow>
          analysisTrigger (checkLockAnalysis opts h address s)
          = (analysisTrigger s \<and> 0 \<notin> stopAnalysisFromOffset opts))
    \<and> (startAnalysisFromSymbol opts = None \<and> address \<notin> startAnalysisFromAddr opts \<longrightarrow>
          analysisTrigger (checkUnlockAnalysis opts h address s)
          = (analysisTrigger s \<or> 0 \<in> startAnalysisFromOffset opts))"
proof -
  from assms have off: "ins_offset h address = 0"
    by (simp add: ins_offset_def)
  show ?thesis
    by (simp add: getInsOffset_eq checkLockAnalysis_eq checkUnlockAnalysis_eq off)
qed

text \<open>Claim C4, amended, at the unresolved address \<open>0x10\<close>, with and without the offset 0.\<close>

theorem unresolved_module_offset_rules_witness:
  "\<not> module_resolved host0 0x10
   \<and> fst (getInsOffset host0 0x10 state1) = 0
   \<and> 0x10 \<notin> stopAnalysisFromAddr opts_symbol
   \<and> analysisTrigger (checkLockAnalysis opts_symbol host0 0x10 state1)
   \<and> \<not> analysisTrigger (checkLockAnalysis opts_offset0 host0 0x10 state1)
   \<and> startAnalysisFromSymbol opts_offset0 = None
   \<and> 0x10 \<notin> startAnalysisFromAddr opts_offset0
   \<and> analysisTrigger (checkUnlockAnalysis opts_offset0 host0 0x10 state0)"
proof -
  have u: "\<not> module_resolved host0 0x10"
    by (simp add: module_resolved_def concrete_defs)
  have c: "0x10 \<notin> stopAnalysisFromAddr opts_symbol" "0 \<notin> stopAnalysisFromOffset opts_symbol"
    "0x10 \<notin> stopAnalysisFromAddr opts_offset0" "0 \<in> stopAnalysisFromOffset opts_offset0"
    "startAnalysisFromSymbol opts_offset0 = None" "0x10 \<notin> startAnalysisFromAddr opts_offset0"
    "0 \<in> startAnalysisFromOffset opts_offset0" "analysisTrigger state1"
    by (simp_all add: concrete_defs)
  show ?thesis
    using u c
      unresolved_module_offset_rules [OF u, of state1 opts_symbol]
      unresolved_module_offset_rules [OF u, of state1 opts_offset0]
      unresolved_module_offset_rules [OF u, of state0 opts_offset0]
    by simp
qed

subsection \<open>Lifecycle callbacks\<close>

text \<open>
  Claim C7, as stated, fails: the thread-start and thread-exit callbacks do not test
  the trigger. With the trigger inactive each takes (and releases) the lock, and with
  the trigger active neither invokes a scripting hook.
\<close>

theorem thread_callbacks_ungated_counterexample:
  "\<not> analysisTrigger state0
   \<and> emitted state0 (callbackThreadEntry 1 7 0 state0) = [Lock, Unlock]
   \<and> emitted state0 (callbackThreadExit 1 7 0 state0) = [Lock, Unlock]
   \<and> analysisTrigger state1
   \<and> \<not> list_ex is_Hook (emitted state1 (callbackThreadEntry 1 7 0 state1))
   \<and> \<not> list_ex is_Hook (emitted state1 (callbackThreadExit 1 7 0 state1))"
  by (simp add: callbackThreadEntry_def callbackThreadExit_def emitted_def ap_defs
      concrete_defs)

text \<open>
  Claim C7, amended. The syscall-entry, syscall-exit and signal callbacks are gated by
  the trigger: when it is inactive they return at once, without taking the lock and
  with the state unchanged; when it is active they take the lock, replace the current
  context handle, invoke the matching scripting hook and release the lock (the signal
  callback then exits). The thread-start and thread-exit callbacks are not gated, as
  image-load is not: in either trigger state they take and release the lock once and
  invoke no scripting hook, and image-load invokes its hook under the lock.
\<close>

theorem lifecycle_callbacks_gating:
  "callbackSyscallEntry threadId ctx std s =
     (if analysisTrigger s
      then s\<lparr>currentCtxH := \<lparr>ctxh_ctx = ctx, ctxh_threadId = threadId\<rparr>,
              events := events s @ [Lock, UpdateCurrentCtxH ctx threadId,
                Hook (Py_callbackSyscallEntry threadId std), Unlock]\<rparr>
      else s)
   \<and> callbackSyscallExit threadId ctx std s =
     (if analysisTrigger s
      then s\<lparr>currentCtxH := \<lparr>ctxh_ctx = ctx, ctxh_threadId = threadId\<rparr>,
              events := events s @ [Lock, UpdateCurrentCtxH ctx threadId,
                Hook (Py_callbackSyscallExit threadId std), Unlock]\<rparr>
      else s)
   \<and> callbackSignals threadId sig ctx hasHandler s =
     (if analysisTrigger s
      then (None, s\<lparr>currentCtxH := \<lparr>ctxh_ctx = ctx, ctxh_threadId = threadId\<rparr>,
                    events := events s @ [Lock, UpdateCurrentCtxH ctx threadId,
                      Hook (Py_callbackSignals threadId sig), Unlock, Exit 0]\<rparr>)
      else (Some False, s))
   \<and> callbackThreadEntry threadId ctx flags s = s\<lparr>events := events s @ [Lock, Unlock]\<rparr>
   \<and> callbackThreadExit threadId ctx flags s = s\<lparr>events := events s @ [Lock, Unlock]\<rparr>
   \<and> callbackImageLoad img s =
       s\<lparr>events := events s @ [Lock,
           Hook (Py_callbackImageLoad (IMG_Name img) (IMG_LowAddress img)
                   (IMG_HighAddress img + 1 - IMG_LowAddress img)), Unlock]\<rparr>"
  by (simp add: callbackSyscallEntry_def callbackSyscallExit_def callbackSignals_def
      callbackThreadEntry_def callbackThreadExit_def callbackImageLoad_def ap_defs Let_def)

subsection \<open>Instructions executed while the trigger is inactive\<close>

text \<open>
  Claim C1, as stated, fails: the stop-rule check does not test the trigger. With the
  trigger inactive it takes the lock, here once, inside \<^verbatim>\<open>getBaseAddress\<close>.
\<close>

theorem lock_check_inactive_counterexample:
  "\<not> analysisTrigger state0
   \<and> emitted state0 (callbackLockCheck opts_symbol host0 0x401000 state0) = [Lock, Unlock]"
  by (simp add: rule_defs ap_defs concrete_defs emitted_def)

text \<open>
  Claim C1, amended. For every instruction executed while the trigger is inactive, the
  before, after and snapshot callbacks leave the state unchanged: no instruction
  record is created, no scripting hook is invoked and no lock is taken. The stop-rule
  check creates no record and invokes no hook either, and changes nothing but the
  event log; it does take and release the lock, once, or twice when the address is
  not a stop address and its offset is a stop offset.
\<close>

theorem inactive_instruction_callbacks:
  assumes "\<not> analysisTrigger s"
  shows "callbackBefore irb ctx hasEA ea isBranchTaken branchTargetAddress threadId s = s
    \<and> callbackAfter h ctx threadId s = s
    \<and> callbackSnapshot mem writeSize s = s
    \<and> callbackLockCheck opts h address s =
        s\<lparr>events := events s @
            (if address \<notin> stopAnalysisFromAddr opts
                \<and> ins_offset h address \<in> stopAnalysisFromOffset opts
             then [Lock, Unlock, Lock, Unlock] else [Lock, Unlock])\<rparr>
    \<and> trace (callbackLockCheck opts h address s) = trace s
    \<and> \<not> list_ex is_Hook (emitted s (callbackLockCheck opts h address s))"
proof -
  from assms have same: "s\<lparr>analysisTrigger := False\<rparr> = s"
    by simp
  have "s\<lparr>analysisTrigger := False, events := es\<rparr> = s\<lparr>events := es\<rparr>" for es
    using same by (metis state.surjective state.update_convs(1) state.update_convs(2))
  then show ?thesis
    using assms
    by (simp add: callbackBefore_def callbackAfter_def callbackSnapshot_def
        callbackLockCheck_def checkLockAnalysis_eq Trigger_getState_def emitted_def)
qed

text \<open>Claim C1, amended, at the initial state of the concrete process.\<close>

theorem inactive_instruction_callbacks_witness:
  "\<not> analysisTrigger state0
   \<and> callbackBefore 0 7 False 0 False 0 1 state0 = state0
   \<and> callbackAfter host0 7 1 state0 = state0
   \<and> callbackSnapshot 0x400ffe 4 state0 = state0
   \<and> events (callbackLockCheck opts_symbol host0 0x401000 state0) = [Lock, Unlock]
   \<and> trace (callbackLockCheck opts_symbol host0 0x401000 state0) = []"
proof -
  have n: "\<not> analysisTrigger state0"
    by (simp add: state0_def)
  have c: "events state0 = []" "trace state0 = []"
    "0x401000 \<notin> stopAnalysisFromAddr opts_symbol" "stopAnalysisFromOffset opts_symbol = {}"
    by (simp_all add: concrete_defs)
  show ?thesis
    using n c
      inactive_instruction_callbacks [OF n, of 0 7 False 0 False 0 1 host0
        "0x400ffe" 4 opts_symbol "0x401000"]
    by simp
qed

subsection \<open>The snapshot journal\<close>

text \<open>
  The loop of \<^verbatim>\<open>callbackSnapshot\<close> from counter \<open>i\<close> appends one entry for each
  remaining byte, in address order, and reads every byte from the memory as it was
  when the loop started, since nothing in the loop writes memory.
\<close>

lemma snapshot_loop_eq:
  "i \<le> n \<Longrightarrow>
   snapshot_loop mem n i s =
     s\<lparr>snapshotMods := snapshotMods s @
         map (\<lambda>k. (mem + of_nat k, memory s (mem + of_nat k))) [unat i..<unat n]\<rparr>"
proof (induction mem n i s rule: snapshot_loop.induct)
  case (1 mem writeSize i s)
  show ?case
  proof (cases "i < writeSize")
    case True
    have nz: "i + 1 \<noteq> 0"
    proof
      assume "i + 1 = 0"
      then have "i = - 1" by (simp add: eq_neg_iff_add_eq_0)
      with True show False by simp
    qed
    then have suc: "unat (i + 1) = Suc (unat i)"
      using unatSuc [of i] by (simp add: add.commute)
    from True have lt: "unat i < unat writeSize"
      by (simp add: word_less_nat_alt)
    from True have le: "i + 1 \<le> writeSize"
      by (rule inc_le)
    have cast: "(ucast i :: uint64) = of_nat (unat i)"
      by simp
    have upt: "[unat i..<unat writeSize] = unat i # [Suc (unat i)..<unat writeSize]"
      using lt by (rule upt_conv_Cons)
    show ?thesis
      using "1.IH" [OF True le] True
      by (subst snapshot_loop.simps)
        (simp add: ap_addSnapshotModification_def suc upt cast del: of_nat_unat)
  next
    case False
    with "1.prems" have "i = writeSize" by simp
    then show ?thesis
      by (subst snapshot_loop.simps) simp
  qed
qed

text \<open>The registrations that the installer adds for one instruction.\<close>

lemma instrument_ins_inserted:
  "inserted (instrument_ins h ins s) =
     inserted s
     @ [INS_InsertCall ins IPOINT_BEFORE
          (AF_callbackBefore (heap_next s) (INS_MemoryOperandCount ins > 0))]
     @ (if INS_IsSyscall ins then []
        else [INS_InsertCall ins
                (if INS_HasFallThrough ins then IPOINT_AFTER else IPOINT_TAKEN_BRANCH)
                AF_callbackAfter,
              INS_InsertCall ins
                (if INS_HasFallThrough ins then IPOINT_AFTER else IPOINT_TAKEN_BRANCH)
                AF_callbackLockCheck])
     @ (if INS_OperandCount ins > 1 \<and> INS_MemoryOperandIsWritten ins 0
        then [INS_InsertCall ins IPOINT_BEFORE (AF_callbackSnapshot (INS_MemoryWriteSize ins))]
        else [])"
  by (simp add: instrument_ins_def insert_call_def new_IRBuilder_def Let_def)

text \<open>
  Claim C5. For a memory write of \<open>writeSize\<close> bytes at address \<open>mem\<close>, with the
  trigger active and the journal unlocked, the snapshot callback appends exactly
  \<open>writeSize\<close> entries to the journal, one for each of the addresses \<open>mem\<close>, \<open>mem+1\<close>,
  ..., \<open>mem+writeSize-1\<close> (on 64 bits) in this order, each with the byte that the
  memory holds at that address when the callback runs. With the journal locked or the
  trigger inactive it appends nothing. The installer registers the callback before
  the instruction (\<^verbatim>\<open>IPOINT_BEFORE\<close>) with the instruction's write size, so the bytes
  read are those immediately prior to the write.
\<close>

theorem snapshot_journal:
  "snapshotMods (callbackSnapshot mem writeSize s) =
     snapshotMods s @
       (if analysisTrigger s \<and> \<not> snapshotLocked s
        then map (\<lambda>k. (mem + of_nat k, memory s (mem + of_nat k))) [0..<unat writeSize]
        else [])
   \<and> length (journaled s (callbackSnapshot mem writeSize s)) =
       (if analysisTrigger s \<and> \<not> snapshotLocked s then unat writeSize else 0)
   \<and> filter is_snapshot_call (installed s (instrument_ins h ins s)) =
       (if INS_OperandCount ins > 1 \<and> INS_MemoryOperandIsWritten ins 0
        then [INS_InsertCall ins IPOINT_BEFORE (AF_callbackSnapshot (INS_MemoryWriteSize ins))]
        else [])"
  by (simp add: callbackSnapshot_def snapshot_loop_eq journaled_def installed_def
      instrument_ins_inserted Trigger_getState_def ap_isSnapshotLocked_def ap_lock_def
      ap_unlock_def)

text \<open>
  Claim C5 on a write of 4 bytes at \<open>0x400ffe\<close>: four entries with the active
  trigger and the unlocked journal, none with the inactive trigger, none with the
  locked journal.
\<close>

theorem snapshot_journal_scenario:
  "journaled state1 (callbackSnapshot 0x400ffe 4 state1) =
     [(0x400ffe, 0xfe), (0x400fff, 0xff), (0x401000, 0), (0x401001, 1)]
   \<and> journaled state0 (callbackSnapshot 0x400ffe 4 state0) = []
   \<and> journaled (state1\<lparr>snapshotLocked := True\<rparr>)
        (callbackSnapshot 0x400ffe 4 (state1\<lparr>snapshotLocked := True\<rparr>)) = []"
proof -
  have u: "[0..<4] = [0, 1, 2, Suc 2]"
    by code_simp
  have c: "analysisTrigger state1" "\<not> snapshotLocked state1" "snapshotMods state1 = []"
    "memory state1 = ucast" "\<not> analysisTrigger state0" "snapshotMods state0 = []"
    by (simp_all add: state1_def state0_def)
  show ?thesis
    using snapshot_journal [of "0x400ffe" 4 state1 host0 ins_store]
      snapshot_journal [of "0x400ffe" 4 state0 host0 ins_store]
      snapshot_journal [of "0x400ffe" 4 "state1\<lparr>snapshotLocked := True\<rparr>" host0 ins_store]
    by (simp add: journaled_def u c)
qed

subsection \<open>The lock discipline of every callback\<close>

text \<open>
  Scanning a concatenation continues the scan of the second part in the state that
  the first part leaves; a scan that succeeds counts as many acquisitions as releases,
  up to the lock held at its start and at its end.
\<close>

lemma lock_scan_append:
  "lock_scan held (xs @ ys) =
     (case lock_scan held xs of None \<Rightarrow> None | Some held' \<Rightarrow> lock_scan held' ys)"
  by (induction held xs rule: lock_scan.induct) simp_all

lemma lock_scan_count:
  "lock_scan held es = Some held' \<Longrightarrow>
   count_list es Lock + (if held then 1 else 0) = count_list es Unlock + (if held' then 1 else 0)"
  by (induction held es rule: lock_scan.induct) (auto split: if_splits)

lemma lock_ok_count: "lock_ok es \<Longrightarrow> count_list es Lock = count_list es Unlock"
  using lock_scan_count [of False es False] by (simp add: lock_ok_def)

lemma lock_disciplineI:
  "events s' = events s @ es \<Longrightarrow> lock_ok es \<Longrightarrow> lock_discipline s s'"
  by (simp add: lock_discipline_def emitted_def)

lemma lock_discipline_refl: "lock_discipline s s"
  by (simp add: lock_discipline_def emitted_def lock_ok_def)

lemma lock_discipline_trans:
  assumes "lock_discipline s s1" and "lock_discipline s1 s2"
  shows "lock_discipline s s2"
proof -
  from assms have e: "events s2 = events s @ (emitted s s1 @ emitted s1 s2)"
    and ok: "lock_ok (emitted s s1)" "lock_ok (emitted s1 s2)"
    by (simp_all add: lock_discipline_def)
  from ok have "lock_ok (emitted s s1 @ emitted s1 s2)"
    by (simp add: lock_ok_def lock_scan_append)
  with e show ?thesis
    by (rule lock_disciplineI)
qed

lemma lock_discipline_events_eq:
  "events s' = events s \<Longrightarrow> lock_discipline s s'"
  by (simp add: lock_discipline_def emitted_def lock_ok_def)

text \<open>Every function of \<^verbatim>\<open>main.cpp\<close> that the host can enter keeps the discipline.\<close>

lemma lock_discipline_toggleWrapper: "lock_discipline s (toggleWrapper flag s)"
  by (rule lock_disciplineI [where es = "[Lock, Unlock]"])
    (simp_all add: toggleWrapper_eq lock_ok_def)

lemma lock_discipline_checkLockAnalysis: "lock_discipline s (checkLockAnalysis opts h address s)"
  by (simp add: checkLockAnalysis_eq lock_discipline_def emitted_def lock_ok_def)

lemma lock_discipline_checkUnlockAnalysis:
  "lock_discipline s (checkUnlockAnalysis opts h address s)"
  by (simp add: checkUnlockAnalysis_eq lock_discipline_def emitted_def lock_ok_def
      split: option.split)

lemma lock_discipline_callbackBefore:
  "lock_discipline s
     (callbackBefore irb ctx hasEA ea isBranchTaken branchTargetAddress threadId s)"
  by (simp add: callbackBefore_def ap_defs Let_def lock_discipline_def emitted_def lock_ok_def)

lemma lock_discipline_callbackAfter: "lock_discipline s (callbackAfter h ctx threadId s)"
  by (simp add: callbackAfter_def ap_defs Let_def lock_discipline_def emitted_def lock_ok_def)

lemma lock_discipline_callbackSnapshot: "lock_discipline s (callbackSnapshot mem writeSize s)"
  by (simp add: callbackSnapshot_def snapshot_loop_eq ap_defs lock_discipline_def emitted_def
      lock_ok_def)

lemma lock_discipline_callbackRoutine:
  "lock_discipline s (callbackRoutineEntry ctx threadId callback s)"
  "lock_discipline s (callbackRoutineExit ctx threadId callback s)"
  by (simp_all add: callbackRoutineEntry_def callbackRoutineExit_def ap_defs Let_def
      lock_discipline_def emitted_def lock_ok_def)

lemma lock_discipline_callbackSyscall:
  "lock_discipline s (callbackSyscallEntry threadId ctx std s)"
  "lock_discipline s (callbackSyscallExit threadId ctx std s)"
  by (simp_all add: callbackSyscallEntry_def callbackSyscallExit_def ap_defs Let_def
      lock_discipline_def emitted_def lock_ok_def)

lemma lock_discipline_callbackSignals:
  "lock_discipline s (snd (callbackSignals threadId sig ctx hasHandler s))"
  by (simp add: callbackSignals_def ap_defs Let_def lock_discipline_def emitted_def lock_ok_def)

lemma lock_discipline_callbackThread:
  "lock_discipline s (callbackThreadEntry threadId ctx flags s)"
  "lock_discipline s (callbackThreadExit threadId ctx flags s)"
  by (simp_all add: callbackThreadEntry_def callbackThreadExit_def ap_defs
      lock_discipline_def emitted_def lock_ok_def)

lemma lock_discipline_callbackFini: "lock_discipline s (callbackFini s)"
  by (simp add: callbackFini_def ap_defs lock_discipline_def emitted_def lock_ok_def)

lemma lock_discipline_callbackImageLoad: "lock_discipline s (callbackImageLoad img s)"
  by (simp add: callbackImageLoad_def ap_defs Let_def lock_discipline_def emitted_def
      lock_ok_def)

lemma routineEntry_loop_frame:
  "events (routineEntry_loop h img xs s) = events s
   \<and> analysisTrigger (routineEntry_loop h img xs s) = analysisTrigger s
   \<and> trace (routineEntry_loop h img xs s) = trace s"
  by (induction xs arbitrary: s) (simp_all add: insert_call_def Let_def)

lemma routineExit_loop_frame:
  "events (routineExit_loop h img xs s) = events s
   \<and> analysisTrigger (routineExit_loop h img xs s) = analysisTrigger s
   \<and> trace (routineExit_loop h img xs s) = trace s"
  by (induction xs arbitrary: s) (simp_all add: insert_call_def Let_def)

lemma lock_discipline_IMG_Instrumentation:
  "lock_discipline s (IMG_Instrumentation opts h img s)"
proof -
  let ?s1 = "case startAnalysisFromSymbol opts of
               None \<Rightarrow> s
             | Some symbol \<Rightarrow>
                 (let targetRTN = RTN_FindByName h img symbol
                  in if RTN_Valid targetRTN
                     then insert_call (RTN_InsertCall targetRTN IPOINT_AFTER
                                         (AF_toggleWrapper False)) s
                     else s)"
  let ?s3 = "routineExit_loop h img (opt_callbackRoutineExit opts)
               (routineEntry_loop h img (opt_callbackRoutineEntry opts) ?s1)"
  have "events ?s1 = events s"
    by (simp add: insert_call_def Let_def split: option.split)
  then have "events ?s3 = events s"
    by (simp add: routineEntry_loop_frame routineExit_loop_frame)
  then have a: "lock_discipline s ?s3"
    by (rule lock_discipline_events_eq)
  have b: "lock_discipline ?s3 (callbackImageLoad img ?s3)"
    by (rule lock_discipline_callbackImageLoad)
  have "IMG_Instrumentation opts h img s =
          (if IMG_Valid img then callbackImageLoad img ?s3 else ?s3)"
    by (simp add: IMG_Instrumentation_def Let_def)
  with a lock_discipline_trans [OF a b] show ?thesis
    by simp
qed

lemma instrument_ins_frame:
  "events (instrument_ins h ins s) = events s
   \<and> analysisTrigger (instrument_ins h ins s) = analysisTrigger s
   \<and> trace (instrument_ins h ins s) = trace s"
  by (simp add: instrument_ins_def insert_call_def new_IRBuilder_def Let_def)

lemma lock_discipline_ins_loop: "lock_discipline s (snd (ins_loop opts h bbl s))"
proof (induction bbl arbitrary: s)
  case Nil
  show ?case by (simp add: lock_discipline_refl)
next
  case (Cons ins rest)
  let ?s1 = "checkUnlockAnalysis opts h (INS_Address ins) s"
  have a: "lock_discipline s ?s1"
    by (rule lock_discipline_checkUnlockAnalysis)
  have "lock_discipline ?s1 (instrument_ins h ins ?s1)"
    by (rule lock_discipline_events_eq) (simp add: instrument_ins_frame)
  from lock_discipline_trans [OF this Cons.IH]
  have "lock_discipline ?s1 (snd (ins_loop opts h rest (instrument_ins h ins ?s1)))" .
  from lock_discipline_trans [OF a this] a show ?case
    by (simp add: Let_def)
qed

lemma lock_discipline_bbl_loop: "lock_discipline s (bbl_loop opts h tr s)"
proof (induction tr arbitrary: s)
  case Nil
  show ?case by (simp add: lock_discipline_refl)
next
  case (Cons bbl rest)
  obtain returned s1 where r: "ins_loop opts h bbl s = (returned, s1)"
    by (cases "ins_loop opts h bbl s")
  with lock_discipline_ins_loop [of s opts h bbl] have a: "lock_discipline s s1"
    by simp
  from lock_discipline_trans [OF a Cons.IH] a r show ?case
    by simp
qed

lemma lock_discipline_fire_afun: "lock_discipline s (fire_afun opts h af a s)"
  by (cases af)
    (simp_all add: lock_discipline_toggleWrapper lock_discipline_callbackRoutine
      lock_discipline_callbackBefore lock_discipline_callbackAfter
      lock_discipline_callbackSnapshot callbackLockCheck_def lock_discipline_checkLockAnalysis)

lemma lock_discipline_invoke: "lock_discipline s (invoke opts h i s)"
proof (cases i)
  case (Run_inserted c a)
  then show ?thesis
    by (cases c) (simp_all add: lock_discipline_fire_afun)
qed (simp_all add: lock_discipline_IMG_Instrumentation TRACE_Instrumentation_def
    lock_discipline_bbl_loop lock_discipline_callbackFini lock_discipline_callbackSyscall
    lock_discipline_callbackSignals lock_discipline_callbackThread)

text \<open>A gated callback entered with the trigger inactive returns the state it received.\<close>

lemma gated_afun_inactive:
  "gated_afun af \<Longrightarrow> \<not> analysisTrigger s \<Longrightarrow> fire_afun opts h af a s = s"
  by (cases af)
    (simp_all add: callbackRoutineEntry_def callbackRoutineExit_def callbackBefore_def
      callbackAfter_def callbackSnapshot_def Trigger_getState_def)

lemma gated_inactive:
  assumes "gated i" and "\<not> analysisTrigger s"
  shows "invoke opts h i s = s"
proof (cases i)
  case (Run_inserted c a)
  with assms show ?thesis
    by (cases c) (simp_all add: gated_afun_inactive)
qed (use assms in \<open>simp_all add: callbackSyscallEntry_def callbackSyscallExit_def
    callbackSignals_def Trigger_getState_def\<close>)

text \<open>
  Claim C8. In every invocation of a callback by the host (an inserted call, the image
  or trace instrumentation, the end of the run, a syscall, signal or thread event),
  the events added to the log respect the lock discipline: the lock is never taken
  while held nor released while free, it is free at the end, and so each acquisition
  is followed by exactly one release, on every path. A gated callback entered with
  the trigger inactive adds no event at all and returns the state unchanged.
\<close>

theorem lock_released_once:
  "lock_discipline s (invoke opts h i s)
   \<and> count_list (emitted s (invoke opts h i s)) Lock
       = count_list (emitted s (invoke opts h i s)) Unlock
   \<and> (gated i \<and> \<not> analysisTrigger s \<longrightarrow>
        invoke opts h i s = s \<and> emitted s (invoke opts h i s) = [])"
proof -
  have d: "lock_discipline s (invoke opts h i s)"
    by (rule lock_discipline_invoke)
  then have "lock_ok (emitted s (invoke opts h i s))"
    by (simp add: lock_discipline_def)
  then have c: "count_list (emitted s (invoke opts h i s)) Lock
       = count_list (emitted s (invoke opts h i s)) Unlock"
    by (rule lock_ok_count)
  have "invoke opts h i s = s \<and> emitted s (invoke opts h i s) = []"
    if "gated i" "\<not> analysisTrigger s"
    using gated_inactive [OF that] by (simp add: emitted_def)
  with d c show ?thesis
    by blast
qed

text \<open>
  Claim C8 at the signal callback: with the trigger inactive it is the early return,
  with the trigger active the lock is taken and released once before the exit.
\<close>

theorem lock_released_once_witness:
  "gated (Run_callbackSignals 1 SIGSEGV 7 False)
   \<and> \<not> analysisTrigger state0
   \<and> invoke opts_symbol host0 (Run_callbackSignals 1 SIGSEGV 7 False) state0 = state0
   \<and> emitted state0 (invoke opts_symbol host0 (Run_callbackSignals 1 SIGSEGV 7 False) state0) = []
   \<and> lock_discipline state1
        (invoke opts_symbol host0 (Run_callbackSignals 1 SIGSEGV 7 False) state1)
   \<and> emitted state1 (invoke opts_symbol host0 (Run_callbackSignals 1 SIGSEGV 7 False) state1)
       = [Lock, UpdateCurrentCtxH 7 1, Hook (Py_callbackSignals 1 SIGSEGV), Unlock, Exit 0]"
proof -
  have g: "gated (Run_callbackSignals 1 SIGSEGV 7 False)" "\<not> analysisTrigger state0"
    by (simp_all add: state0_def)
  have e: "emitted state1 (invoke opts_symbol host0 (Run_callbackSignals 1 SIGSEGV 7 False) state1)
       = [Lock, UpdateCurrentCtxH 7 1, Hook (Py_callbackSignals 1 SIGSEGV), Unlock, Exit 0]"
    by (simp add: callbackSignals_def ap_defs emitted_def state1_def state0_def)
  have t0: "invoke opts_symbol host0 (Run_callbackSignals 1 SIGSEGV 7 False) state0 = state0
      \<and> emitted state0 (invoke opts_symbol host0 (Run_callbackSignals 1 SIGSEGV 7 False) state0)
          = []"
    using g
      lock_released_once [of state0 opts_symbol host0 "Run_callbackSignals 1 SIGSEGV 7 False"]
    by blast
  have t1: "lock_discipline state1
        (invoke opts_symbol host0 (Run_callbackSignals 1 SIGSEGV 7 False) state1)"
    using lock_released_once [of state1 opts_symbol host0 "Run_callbackSignals 1 SIGSEGV 7 False"]
    by blast
  show ?thesis
    using g e t0 t1 by blast
qed

subsection \<open>While the trigger is inactive\<close>

text \<open>
  While the trigger is inactive and no activation rule matches, nothing that the host
  invokes switches it on or adds a record to the trace. On an inactive trigger the
  instrumentation of a trace returns at the first instruction whose address matches
  no activation rule.
\<close>

lemma checkUnlockAnalysis_frame:
  "trace (checkUnlockAnalysis opts h address s) = trace s
   \<and> inserted (checkUnlockAnalysis opts h address s) = inserted s"
  by (simp add: checkUnlockAnalysis_eq split: option.split)

lemma checkUnlockAnalysis_no_match:
  "\<not> unlock_rule_matches opts h address \<Longrightarrow>
   analysisTrigger (checkUnlockAnalysis opts h address s) = analysisTrigger s"
  by (simp add: checkUnlockAnalysis_eq unlock_rule_matches_def split: option.splits)

lemma ins_loop_inactive:
  assumes "\<not> analysisTrigger s"
    and "\<not> list_ex (\<lambda>ins. unlock_rule_matches opts h (INS_Address ins)) bbl"
  shows "\<not> analysisTrigger (snd (ins_loop opts h bbl s))
    \<and> trace (snd (ins_loop opts h bbl s)) = trace s"
proof (cases bbl)
  case Nil
  with assms show ?thesis by simp
next
  case (Cons ins rest)
  with assms have "\<not> unlock_rule_matches opts h (INS_Address ins)"
    by simp
  from checkUnlockAnalysis_no_match [OF this, of s] assms(1) Cons show ?thesis
    by (simp add: Let_def Trigger_getState_def checkUnlockAnalysis_frame)
qed

lemma bbl_loop_inactive:
  assumes "\<not> analysisTrigger s"
    and "\<not> list_ex (\<lambda>ins. unlock_rule_matches opts h (INS_Address ins)) (concat tr)"
  shows "\<not> analysisTrigger (bbl_loop opts h tr s) \<and> trace (bbl_loop opts h tr s) = trace s"
  using assms
proof (induction tr arbitrary: s)
  case Nil
  then show ?case by simp
next
  case (Cons bbl rest)
  obtain returned s1 where r: "ins_loop opts h bbl s = (returned, s1)"
    by (cases "ins_loop opts h bbl s")
  from Cons.prems have nb: "\<not> list_ex (\<lambda>ins. unlock_rule_matches opts h (INS_Address ins)) bbl"
    and nr: "\<not> list_ex (\<lambda>ins. unlock_rule_matches opts h (INS_Address ins)) (concat rest)"
    by (simp_all add: list_ex_iff)
  from ins_loop_inactive [OF Cons.prems(1) nb] r
  have s1: "\<not> analysisTrigger s1" "trace s1 = trace s"
    by simp_all
  from Cons.IH [OF s1(1) nr] s1 r show ?case
    by simp
qed

lemma fire_afun_inactive:
  assumes "\<not> analysisTrigger s" and "af \<noteq> AF_toggleWrapper True"
  shows "\<not> analysisTrigger (fire_afun opts h af a s) \<and> trace (fire_afun opts h af a s) = trace s"
proof (cases "gated_afun af")
  case True
  from gated_afun_inactive [OF True assms(1)] assms(1) show ?thesis
    by simp
next
  case False
  then consider flag where "af = AF_toggleWrapper flag" | "af = AF_callbackLockCheck"
    by (cases af) simp_all
  then show ?thesis
  proof cases
    case 1
    with assms show ?thesis
      by (simp add: toggleWrapper_eq)
  next
    case 2
    with assms show ?thesis
      by (simp add: callbackLockCheck_def checkLockAnalysis_eq)
  qed
qed

lemma invoke_inactive:
  assumes "\<not> analysisTrigger s" and "\<not> activating opts h i"
  shows "\<not> analysisTrigger (invoke opts h i s) \<and> trace (invoke opts h i s) = trace s"
proof (cases i)
  case (Run_inserted c a)
  with assms show ?thesis
    by (cases c) (simp_all add: fire_afun_inactive)
next
  case (Run_IMG_Instrumentation img)
  with assms(1) show ?thesis
    by (simp add: IMG_Instrumentation_def Let_def routineEntry_loop_frame
        routineExit_loop_frame callbackImageLoad_def ap_defs split: option.split)
next
  case (Run_TRACE_Instrumentation tr)
  with assms bbl_loop_inactive [of s opts h tr] show ?thesis
    by (simp add: TRACE_Instrumentation_def)
next
  case Run_callbackFini
  with assms(1) show ?thesis
    by (simp add: callbackFini_def ap_defs)
next
  case (Run_callbackThreadEntry threadId ctx flags)
  with assms(1) show ?thesis
    by (simp add: callbackThreadEntry_def ap_defs)
next
  case (Run_callbackThreadExit threadId ctx flags)
  with assms(1) show ?thesis
    by (simp add: callbackThreadExit_def ap_defs)
qed (use assms(1) in \<open>simp_all add: callbackSyscallEntry_def callbackSyscallExit_def
    callbackSignals_def Trigger_getState_def\<close>)

lemma run_inactive:
  assumes "\<not> analysisTrigger s" and "\<not> list_ex (activating opts h) is"
  shows "\<not> analysisTrigger (run opts h is s) \<and> trace (run opts h is s) = trace s"
  using assms
proof (induction "is" arbitrary: s)
  case Nil
  then show ?case by simp
next
  case (Cons i rest)
  from Cons.prems have ni: "\<not> activating opts h i" and nr: "\<not> list_ex (activating opts h) rest"
    by simp_all
  from invoke_inactive [OF Cons.prems(1) ni]
  have s1: "\<not> analysisTrigger (invoke opts h i s)" "trace (invoke opts h i s) = trace s"
    by simp_all
  from Cons.IH [OF s1(1) nr] s1(2) Cons.prems(1) show ?case
    by simp
qed

subsection \<open>System call instructions\<close>

text \<open>
  Every registration that the instrumentation of a trace adds has the shape
  \<open>trace_call_ok\<close>; the before callback and the snapshot callback never write the trigger.
\<close>

lemma ins_loop_inserted:
  "\<exists>cs. inserted (snd (ins_loop opts h bbl s)) = inserted s @ cs \<and> list_all trace_call_ok cs"
proof (induction bbl arbitrary: s)
  case Nil
  show ?case by simp
next
  case (Cons ins rest)
  let ?s1 = "checkUnlockAnalysis opts h (INS_Address ins) s"
  let ?s2 = "instrument_ins h ins ?s1"
  obtain cs1 where c1: "inserted ?s2 = inserted s @ cs1" "list_all trace_call_ok cs1"
    by (simp add: instrument_ins_inserted checkUnlockAnalysis_frame)
  from Cons.IH [of ?s2] obtain cs2
    where c2: "inserted (snd (ins_loop opts h rest ?s2)) = inserted ?s2 @ cs2"
      "list_all trace_call_ok cs2"
    by blast
  show ?case
  proof (cases "Trigger_getState ?s1")
    case False
    then show ?thesis
      by (simp add: Let_def checkUnlockAnalysis_frame)
  next
    case True
    with c1 c2 have "inserted (snd (ins_loop opts h (ins # rest) s)) = inserted s @ (cs1 @ cs2)"
      "list_all trace_call_ok (cs1 @ cs2)"
      by (simp_all add: Let_def)
    then show ?thesis
      by blast
  qed
qed

lemma bbl_loop_inserted:
  "\<exists>cs. inserted (bbl_loop opts h tr s) = inserted s @ cs \<and> list_all trace_call_ok cs"
proof (induction tr arbitrary: s)
  case Nil
  show ?case by simp
next
  case (Cons bbl rest)
  obtain returned s1 where r: "ins_loop opts h bbl s = (returned, s1)"
    by (cases "ins_loop opts h bbl s")
  with ins_loop_inserted [of opts h bbl s] obtain cs1
    where c1: "inserted s1 = inserted s @ cs1" "list_all trace_call_ok cs1"
    by auto
  from Cons.IH [of s1] obtain cs2
    where c2: "inserted (bbl_loop opts h rest s1) = inserted s1 @ cs2" "list_all trace_call_ok cs2"
    by blast
  show ?case
  proof (cases returned)
    case True
    with r c1 show ?thesis by simp
  next
    case False
    with r c1 c2 have "inserted (bbl_loop opts h (bbl # rest) s) = inserted s @ (cs1 @ cs2)"
      "list_all trace_call_ok (cs1 @ cs2)"
      by simp_all
    then show ?thesis
      by blast
  qed
qed

lemma TRACE_Instrumentation_installed:
  "list_all trace_call_ok (installed s (TRACE_Instrumentation opts h tr s))"
  using bbl_loop_inserted [of opts h tr s]
  by (auto simp: TRACE_Instrumentation_def installed_def)

lemma callbackBefore_trigger:
  "analysisTrigger (callbackBefore irb ctx hasEA ea isBranchTaken branchTargetAddress threadId s)
   = analysisTrigger s"
  by (simp add: callbackBefore_def ap_defs Let_def)

lemma callbackSnapshot_trigger:
  "analysisTrigger (callbackSnapshot mem writeSize s) = analysisTrigger s"
  by (simp add: callbackSnapshot_def snapshot_loop_eq ap_defs)

text \<open>The state after the instrumentation of the trace that holds the system call.\<close>

lemma syscall_instrumented_eq:
  "syscall_instrumented =
     state1\<lparr>inserted := [INS_InsertCall ins_syscall IPOINT_BEFORE (AF_callbackBefore 0 False)],
            heap_IRBuilder := (heap_IRBuilder state1)(0 := irb0 0x4010a0),
            heap_next := Suc 0\<rparr>"
  by (simp add: syscall_instrumented_def TRACE_Instrumentation_def checkUnlockAnalysis_eq
      instrument_ins_def new_IRBuilder_def insert_call_def Trigger_getState_def Let_def
      opts_symbol_def host0_def state1_def state0_def ins_syscall_def)

text \<open>
  Claim C10. For an instrumented instruction that is a system call, the installer
  registers neither the after callback nor the stop-rule check: no call that the
  instrumentation of a trace adds on such an instruction is one of the two.
  Consequently every call registered on it, when it fires, leaves the trigger as it
  was, so the stop rules are not evaluated on the per-instruction path of a system
  call and cannot deactivate the trigger there, even when its address is a stop
  address.
\<close>

theorem syscall_no_after_callbacks:
  assumes "INS_InsertCall ins where af \<in> set (installed s (TRACE_Instrumentation opts h tr s))"
    and "INS_IsSyscall ins"
  shows "af \<noteq> AF_callbackAfter \<and> af \<noteq> AF_callbackLockCheck
    \<and> analysisTrigger (fire opts h (INS_InsertCall ins where af) a s') = analysisTrigger s'"
proof -
  from TRACE_Instrumentation_installed [of s opts h tr] assms(1)
  have ok: "trace_call_ok (INS_InsertCall ins where af)"
    by (simp add: list_all_iff)
  with assms(2) show ?thesis
    by (cases af) (simp_all add: callbackBefore_trigger callbackSnapshot_trigger)
qed

text \<open>
  Claim C10 on a system call at the stop address \<open>0x4010a0\<close>: only the before
  callback is registered, and firing it leaves the trigger active.
\<close>

theorem syscall_no_after_callbacks_witness:
  "installed state1 (TRACE_Instrumentation opts_symbol host0 [[ins_syscall]] state1)
     = [INS_InsertCall ins_syscall IPOINT_BEFORE (AF_callbackBefore 0 False)]
   \<and> INS_IsSyscall ins_syscall
   \<and> INS_Address ins_syscall \<in> stopAnalysisFromAddr opts_symbol
   \<and> analysisTrigger (TRACE_Instrumentation opts_symbol host0 [[ins_syscall]] state1)
   \<and> analysisTrigger
       (fire opts_symbol host0
          (INS_InsertCall ins_syscall IPOINT_BEFORE (AF_callbackBefore 0 False))
          args0 (TRACE_Instrumentation opts_symbol host0 [[ins_syscall]] state1))"
proof -
  have e: "TRACE_Instrumentation opts_symbol host0 [[ins_syscall]] state1 =
     state1\<lparr>inserted := [INS_InsertCall ins_syscall IPOINT_BEFORE (AF_callbackBefore 0 False)],
            heap_IRBuilder := (heap_IRBuilder state1)(0 := irb0 0x4010a0),
            heap_next := Suc 0\<rparr>"
    using syscall_instrumented_eq by (simp add: syscall_instrumented_def)
  have s: "inserted state1 = []" "analysisTrigger state1"
    by (simp_all add: state1_def state0_def)
  have i: "installed state1 (TRACE_Instrumentation opts_symbol host0 [[ins_syscall]] state1)
     = [INS_InsertCall ins_syscall IPOINT_BEFORE (AF_callbackBefore 0 False)]"
    unfolding e by (simp add: installed_def s)
  then have m: "INS_InsertCall ins_syscall IPOINT_BEFORE (AF_callbackBefore 0 False)
      \<in> set (installed state1 (TRACE_Instrumentation opts_symbol host0 [[ins_syscall]] state1))"
    by simp
  have c: "INS_IsSyscall ins_syscall" "INS_Address ins_syscall \<in> stopAnalysisFromAddr opts_symbol"
    by (simp_all add: ins_syscall_def opts_symbol_def)
  have t: "analysisTrigger (TRACE_Instrumentation opts_symbol host0 [[ins_syscall]] state1)"
    unfolding e by (simp add: s)
  show ?thesis
    using i c t
      syscall_no_after_callbacks [OF m c(1), of args0
        "TRACE_Instrumentation opts_symbol host0 [[ins_syscall]] state1"]
    by simp
qed

subsection \<open>Deactivation at a stop address\<close>

text \<open>
  Firing calls that the instrumentation of a trace registered never switches the
  trigger on, and a stop-rule check registered on an instruction at a stop address
  switches it off.
\<close>

lemma trace_call_ok_inactive:
  assumes "trace_call_ok c" and "\<not> analysisTrigger s"
  shows "\<not> analysisTrigger (fire opts h c a s)"
proof (cases c)
  case (RTN_InsertCall rtn w af)
  with assms show ?thesis by simp
next
  case (INS_InsertCall ins w af)
  with assms(1) have "af \<noteq> AF_toggleWrapper True"
    by (cases af) simp_all
  from fire_afun_inactive [OF assms(2) this] INS_InsertCall show ?thesis
    by simp
qed

lemma fire_all_inactive:
  "list_all trace_call_ok cs \<Longrightarrow> \<not> analysisTrigger s \<Longrightarrow>
   \<not> analysisTrigger (fire_all opts h cs a s)"
  by (induction cs arbitrary: s) (simp_all add: trace_call_ok_inactive)

lemma fire_lock_check_stop:
  "INS_Address ins \<in> stopAnalysisFromAddr opts \<Longrightarrow>
   \<not> analysisTrigger (fire opts h (INS_InsertCall ins w AF_callbackLockCheck) a s)"
  by (simp add: callbackLockCheck_def checkLockAnalysis_eq)

lemma fire_all_lock_check:
  assumes "list_all trace_call_ok cs"
    and "INS_InsertCall ins w AF_callbackLockCheck \<in> set cs"
    and "INS_Address ins \<in> stopAnalysisFromAddr opts"
  shows "\<not> analysisTrigger (fire_all opts h cs a s)"
  using assms(1,2)
proof (induction cs arbitrary: s)
  case Nil
  then show ?case by simp
next
  case (Cons c cs)
  show ?case
  proof (cases "c = INS_InsertCall ins w AF_callbackLockCheck")
    case True
    with fire_lock_check_stop [OF assms(3)] have "\<not> analysisTrigger (fire opts h c a s)"
      by simp
    with Cons.prems(1) show ?thesis
      by (simp add: fire_all_inactive)
  next
    case False
    with Cons.prems have "list_all trace_call_ok cs"
      and "INS_InsertCall ins w AF_callbackLockCheck \<in> set cs"
      by simp_all
    from Cons.IH [OF this] show ?thesis
      by simp
  qed
qed

text \<open>
  Whenever the instrumentation of a trace registers a call on an instruction that is
  not a system call, it registers the after callback and the stop-rule check on it,
  at its after point.
\<close>

lemma instrument_ins_after_calls:
  assumes "INS_InsertCall ins w af \<in> set (installed s (instrument_ins h i s))"
    and "\<not> INS_IsSyscall ins"
  shows "INS_InsertCall ins (after_point ins) AF_callbackAfter
           \<in> set (installed s (instrument_ins h i s))
    \<and> INS_InsertCall ins (after_point ins) AF_callbackLockCheck
           \<in> set (installed s (instrument_ins h i s))"
proof -
  from assms(1) have "ins = i"
    by (auto simp: installed_def instrument_ins_inserted split: if_splits)
  with assms(2) show ?thesis
    by (simp add: installed_def instrument_ins_inserted after_point_def)
qed

lemma ins_loop_after_calls:
  "\<exists>cs. inserted (snd (ins_loop opts h bbl s)) = inserted s @ cs
     \<and> (\<forall>ins w af. INS_InsertCall ins w af \<in> set cs \<longrightarrow> \<not> INS_IsSyscall ins \<longrightarrow>
           INS_InsertCall ins (after_point ins) AF_callbackAfter \<in> set cs
           \<and> INS_InsertCall ins (after_point ins) AF_callbackLockCheck \<in> set cs)"
proof (induction bbl arbitrary: s)
  case Nil
  show ?case by simp
next
  case (Cons i rest)
  let ?s1 = "checkUnlockAnalysis opts h (INS_Address i) s"
  let ?s2 = "instrument_ins h i ?s1"
  let ?cs1 = "installed ?s1 ?s2"
  have c1: "inserted ?s2 = inserted s @ ?cs1"
    by (simp add: installed_def instrument_ins_inserted checkUnlockAnalysis_frame)
  from Cons.IH [of ?s2] obtain cs2
    where c2: "inserted (snd (ins_loop opts h rest ?s2)) = inserted ?s2 @ cs2"
      and p2: "\<forall>ins w af. INS_InsertCall ins w af \<in> set cs2 \<longrightarrow> \<not> INS_IsSyscall ins \<longrightarrow>
           INS_InsertCall ins (after_point ins) AF_callbackAfter \<in> set cs2
           \<and> INS_InsertCall ins (after_point ins) AF_callbackLockCheck \<in> set cs2"
    by blast
  show ?case
  proof (cases "Trigger_getState ?s1")
    case False
    then show ?thesis
      by (simp add: Let_def checkUnlockAnalysis_frame)
  next
    case True
    with c1 c2 have e: "inserted (snd (ins_loop opts h (i # rest) s)) = inserted s @ (?cs1 @ cs2)"
      by (simp add: Let_def)
    have "INS_InsertCall ins (after_point ins) AF_callbackAfter \<in> set (?cs1 @ cs2)
           \<and> INS_InsertCall ins (after_point ins) AF_callbackLockCheck \<in> set (?cs1 @ cs2)"
      if m: "INS_InsertCall ins w af \<in> set (?cs1 @ cs2)" and n: "\<not> INS_IsSyscall ins"
      for ins w af
    proof (cases "INS_InsertCall ins w af \<in> set ?cs1")
      case True
      from instrument_ins_after_calls [OF True n] show ?thesis
        by simp
    next
      case False
      with m have "INS_InsertCall ins w af \<in> set cs2"
        by simp
      with p2 n have "INS_InsertCall ins (after_point ins) AF_callbackAfter \<in> set cs2
           \<and> INS_InsertCall ins (after_point ins) AF_callbackLockCheck \<in> set cs2"
        by blast
      then show ?thesis
        by simp
    qed
    with e show ?thesis
      by blast
  qed
qed

lemma bbl_loop_after_calls:
  "\<exists>cs. inserted (bbl_loop opts h tr s) = inserted s @ cs
     \<and> (\<forall>ins w af. INS_InsertCall ins w af \<in> set cs \<longrightarrow> \<not> INS_IsSyscall ins \<longrightarrow>
           INS_InsertCall ins (after_point ins) AF_callbackAfter \<in> set cs
           \<and> INS_InsertCall ins (after_point ins) AF_callbackLockCheck \<in> set cs)"
proof (induction tr arbitrary: s)
  case Nil
  show ?case by simp
next
  case (Cons bbl rest)
  obtain returned s1 where r: "ins_loop opts h bbl s = (returned, s1)"
    by (cases "ins_loop opts h bbl s")
  with ins_loop_after_calls [of opts h bbl s] obtain cs1
    where c1: "inserted s1 = inserted s @ cs1"
      and p1: "\<forall>ins w af. INS_InsertCall ins w af \<in> set cs1 \<longrightarrow> \<not> INS_IsSyscall ins \<longrightarrow>
           INS_InsertCall ins (after_point ins) AF_callbackAfter \<in> set cs1
           \<and> INS_InsertCall ins (after_point ins) AF_callbackLockCheck \<in> set cs1"
    by auto
  from Cons.IH [of s1] obtain cs2
    where c2: "inserted (bbl_loop opts h rest s1) = inserted s1 @ cs2"
      and p2: "\<forall>ins w af. INS_InsertCall ins w af \<in> set cs2 \<longrightarrow> \<not> INS_IsSyscall ins \<longrightarrow>
           INS_InsertCall ins (after_point ins) AF_callbackAfter \<in> set cs2
           \<and> INS_InsertCall ins (after_point ins) AF_callbackLockCheck \<in> set cs2"
    by blast
  show ?case
  proof (cases returned)
    case True
    with r c1 have "inserted (bbl_loop opts h (bbl # rest) s) = inserted s @ cs1"
      by simp
    with p1 show ?thesis
      by blast
  next
    case False
    with r c1 c2 have e: "inserted (bbl_loop opts h (bbl # rest) s) = inserted s @ (cs1 @ cs2)"
      by simp
    have "INS_InsertCall ins (after_point ins) AF_callbackAfter \<in> set (cs1 @ cs2)
           \<and> INS_InsertCall ins (after_point ins) AF_callbackLockCheck \<in> set (cs1 @ cs2)"
      if m: "INS_InsertCall ins w af \<in> set (cs1 @ cs2)" and n: "\<not> INS_IsSyscall ins"
      for ins w af
    proof (cases "INS_InsertCall ins w af \<in> set cs1")
      case True
      with p1 n have "INS_InsertCall ins (after_point ins) AF_callbackAfter \<in> set cs1
           \<and> INS_InsertCall ins (after_point ins) AF_callbackLockCheck \<in> set cs1"
        by blast
      then show ?thesis
        by simp
    next
      case False
      with m have "INS_InsertCall ins w af \<in> set cs2"
        by simp
      with p2 n have "INS_InsertCall ins (after_point ins) AF_callbackAfter \<in> set cs2
           \<and> INS_InsertCall ins (after_point ins) AF_callbackLockCheck \<in> set cs2"
        by blast
      then show ?thesis
        by simp
    qed
    with e show ?thesis
      by blast
  qed
qed

lemma TRACE_Instrumentation_after_calls:
  assumes "INS_InsertCall ins w af \<in> set (installed s (TRACE_Instrumentation opts h tr s))"
    and "\<not> INS_IsSyscall ins"
  shows "INS_InsertCall ins (after_point ins) AF_callbackAfter
           \<in> set (installed s (TRACE_Instrumentation opts h tr s))
    \<and> INS_InsertCall ins (after_point ins) AF_callbackLockCheck
           \<in> set (installed s (TRACE_Instrumentation opts h tr s))"
proof -
  from bbl_loop_after_calls [of opts h tr s] obtain cs
    where c: "inserted (bbl_loop opts h tr s) = inserted s @ cs"
      and p: "\<forall>ins w af. INS_InsertCall ins w af \<in> set cs \<longrightarrow> \<not> INS_IsSyscall ins \<longrightarrow>
           INS_InsertCall ins (after_point ins) AF_callbackAfter \<in> set cs
           \<and> INS_InsertCall ins (after_point ins) AF_callbackLockCheck \<in> set cs"
    by blast
  from c have i: "installed s (TRACE_Instrumentation opts h tr s) = cs"
    by (simp add: TRACE_Instrumentation_def installed_def)
  from assms p show ?thesis
    unfolding i by blast
qed

lemma execute_ins_lock_check:
  assumes "list_all trace_call_ok cs"
    and "INS_InsertCall ins (after_point ins) AF_callbackLockCheck \<in> set cs"
    and "INS_Address ins \<in> stopAnalysisFromAddr opts"
  shows "\<not> analysisTrigger (execute_ins opts h cs (INS_Address ins) a a' s)"
proof -
  let ?here = "filter (\<lambda>c. call_address c = Some (INS_Address ins)) cs"
  let ?after = "filter (\<lambda>c. call_point c \<noteq> IPOINT_BEFORE) ?here"
  from assms(1) have ok: "list_all trace_call_ok ?after"
    by (simp add: list_all_iff)
  from assms(2) have m: "INS_InsertCall ins (after_point ins) AF_callbackLockCheck \<in> set ?after"
    by (simp add: after_point_def)
  from fire_all_lock_check [OF ok m assms(3)] show ?thesis
    by (simp add: execute_ins_def Let_def)
qed

text \<open>
  With the trigger active when the instrumentation of a trace starts, every
  instruction of the trace is instrumented: its before callback is registered. The
  activation check never switches the trigger off.
\<close>

lemma checkUnlockAnalysis_active:
  "analysisTrigger s \<Longrightarrow> analysisTrigger (checkUnlockAnalysis opts h address s)"
  by (simp add: checkUnlockAnalysis_eq split: option.split)

lemma ins_loop_active:
  assumes "analysisTrigger s"
  shows "\<exists>cs. inserted (snd (ins_loop opts h bbl s)) = inserted s @ cs
     \<and> \<not> fst (ins_loop opts h bbl s)
     \<and> analysisTrigger (snd (ins_loop opts h bbl s))
     \<and> (\<forall>ins\<in>set bbl. \<exists>irb.
           INS_InsertCall ins IPOINT_BEFORE (AF_callbackBefore irb (INS_MemoryOperandCount ins > 0))
             \<in> set cs)"
  using assms
proof (induction bbl arbitrary: s)
  case Nil
  then show ?case by simp
next
  case (Cons i rest)
  let ?s1 = "checkUnlockAnalysis opts h (INS_Address i) s"
  let ?s2 = "instrument_ins h i ?s1"
  from Cons.prems have t1: "analysisTrigger ?s1"
    by (rule checkUnlockAnalysis_active)
  then have t2: "analysisTrigger ?s2"
    by (simp add: instrument_ins_frame)
  obtain cs1 where c1: "inserted ?s2 = inserted s @ cs1"
    and m1: "INS_InsertCall i IPOINT_BEFORE
               (AF_callbackBefore (heap_next ?s1) (INS_MemoryOperandCount i > 0)) \<in> set cs1"
    by (simp add: instrument_ins_inserted checkUnlockAnalysis_frame)
  from Cons.IH [OF t2] obtain cs2
    where c2: "inserted (snd (ins_loop opts h rest ?s2)) = inserted ?s2 @ cs2"
      and r2: "\<not> fst (ins_loop opts h rest ?s2)"
        "analysisTrigger (snd (ins_loop opts h rest ?s2))"
      and m2: "\<forall>ins\<in>set rest. \<exists>irb.
           INS_InsertCall ins IPOINT_BEFORE (AF_callbackBefore irb (INS_MemoryOperandCount ins > 0))
             \<in> set cs2"
    by blast
  from t1 have e: "ins_loop opts h (i # rest) s = ins_loop opts h rest ?s2"
    by (simp add: Let_def Trigger_getState_def)
  from c1 c2 have c: "inserted (snd (ins_loop opts h (i # rest) s)) = inserted s @ (cs1 @ cs2)"
    unfolding e by simp
  from m1 m2 have "\<forall>ins\<in>set (i # rest). \<exists>irb.
           INS_InsertCall ins IPOINT_BEFORE (AF_callbackBefore irb (INS_MemoryOperandCount ins > 0))
             \<in> set (cs1 @ cs2)"
    by auto
  with c r2 show ?case
    unfolding e by blast
qed

lemma bbl_loop_active:
  assumes "analysisTrigger s"
  shows "\<exists>cs. inserted (bbl_loop opts h tr s) = inserted s @ cs
     \<and> (\<forall>ins\<in>set (concat tr). \<exists>irb.
           INS_InsertCall ins IPOINT_BEFORE (AF_callbackBefore irb (INS_MemoryOperandCount ins > 0))
             \<in> set cs)"
  using assms
proof (induction tr arbitrary: s)
  case Nil
  then show ?case by simp
next
  case (Cons bbl rest)
  from ins_loop_active [OF Cons.prems, of opts h bbl] obtain cs1
    where c1: "inserted (snd (ins_loop opts h bbl s)) = inserted s @ cs1"
      and r1: "\<not> fst (ins_loop opts h bbl s)" "analysisTrigger (snd (ins_loop opts h bbl s))"
      and m1: "\<forall>ins\<in>set bbl. \<exists>irb.
           INS_InsertCall ins IPOINT_BEFORE (AF_callbackBefore irb (INS_MemoryOperandCount ins > 0))
             \<in> set cs1"
    by blast
  from Cons.IH [OF r1(2)] obtain cs2
    where c2: "inserted (bbl_loop opts h rest (snd (ins_loop opts h bbl s)))
                 = inserted (snd (ins_loop opts h bbl s)) @ cs2"
      and m2: "\<forall>ins\<in>set (concat rest). \<exists>irb.
           INS_InsertCall ins IPOINT_BEFORE (AF_callbackBefore irb (INS_MemoryOperandCount ins > 0))
             \<in> set cs2"
    by blast
  from r1(1) have e: "bbl_loop opts h (bbl # rest) s
      = bbl_loop opts h rest (snd (ins_loop opts h bbl s))"
    by (simp add: split_beta)
  from c1 c2 have c: "inserted (bbl_loop opts h (bbl # rest) s) = inserted s @ (cs1 @ cs2)"
    unfolding e by simp
  from m1 m2 have "\<forall>ins\<in>set (concat (bbl # rest)). \<exists>irb.
           INS_InsertCall ins IPOINT_BEFORE (AF_callbackBefore irb (INS_MemoryOperandCount ins > 0))
             \<in> set (cs1 @ cs2)"
    by (simp add: ball_Un) blast
  with c show ?case
    by blast
qed

lemma TRACE_Instrumentation_active:
  assumes "analysisTrigger s" and "ins \<in> set (concat tr)"
  shows "\<exists>irb. INS_InsertCall ins IPOINT_BEFORE
                 (AF_callbackBefore irb (INS_MemoryOperandCount ins > 0))
               \<in> set (installed s (TRACE_Instrumentation opts h tr s))"
proof -
  from bbl_loop_active [OF assms(1), of opts h tr] obtain cs
    where c: "inserted (bbl_loop opts h tr s) = inserted s @ cs"
      and m: "\<forall>ins\<in>set (concat tr). \<exists>irb.
           INS_InsertCall ins IPOINT_BEFORE (AF_callbackBefore irb (INS_MemoryOperandCount ins > 0))
             \<in> set cs"
    by blast
  from c have i: "installed s (TRACE_Instrumentation opts h tr s) = cs"
    by (simp add: TRACE_Instrumentation_def installed_def)
  from m assms(2) show ?thesis
    unfolding i by blast
qed

text \<open>
  Claim C6, as stated, fails for a stop address that designates a system call. The
  system call at the stop address \<open>0x4010a0\<close> is instrumented with the trigger active:
  only its before callback is registered, so no after-hook evaluation point exists
  for it. After it has executed the trigger is still active and the trace holds its
  record; the next instruction, at \<open>0x4010a4\<close>, matches no activation rule and adds a
  second record.
\<close>

theorem syscall_stop_address_counterexample:
  "INS_IsSyscall ins_syscall
   \<and> INS_Address ins_syscall \<in> stopAnalysisFromAddr opts_symbol
   \<and> inserted syscall_instrumented
       = [INS_InsertCall ins_syscall IPOINT_BEFORE (AF_callbackBefore 0 False)]
   \<and> analysisTrigger syscall_executed
   \<and> length (trace syscall_executed) = 1
   \<and> \<not> unlock_rule_matches opts_symbol host0 (INS_Address ins_next)
   \<and> length (trace syscall_next_executed) = 2"
proof -
  have a: "INS_IsSyscall ins_syscall" "INS_Address ins_syscall = 0x4010a0"
    "INS_Address ins_syscall \<in> stopAnalysisFromAddr opts_symbol"
    "INS_Address ins_next = 0x4010a4"
    "\<not> unlock_rule_matches opts_symbol host0 (INS_Address ins_next)"
    by (simp_all add: ins_syscall_def ins_next_def ins_store_def opts_symbol_def
        unlock_rule_matches_def host0_def)
  have b: "analysisTrigger syscall_executed" "length (trace syscall_executed) = 1"
    by (simp_all add: syscall_executed_def syscall_instrumented_eq execute_ins_def a
        callbackBefore_def ap_defs Let_def state1_def state0_def args0_def)
  let ?s3 = "TRACE_Instrumentation opts_symbol host0 [[ins_next]] syscall_executed"
  have c: "inserted ?s3 =
      [INS_InsertCall ins_syscall IPOINT_BEFORE (AF_callbackBefore 0 False),
       INS_InsertCall ins_next IPOINT_BEFORE (AF_callbackBefore (Suc 0) True),
       INS_InsertCall ins_next IPOINT_AFTER AF_callbackAfter,
       INS_InsertCall ins_next IPOINT_AFTER AF_callbackLockCheck,
       INS_InsertCall ins_next IPOINT_BEFORE (AF_callbackSnapshot 4)]"
    "analysisTrigger ?s3" "trace ?s3 = trace syscall_executed"
    using b(1)
    by (simp_all add: TRACE_Instrumentation_def checkUnlockAnalysis_eq instrument_ins_inserted
        instrument_ins_frame Let_def a opts_symbol_def host0_def
        syscall_executed_def syscall_instrumented_eq execute_ins_def callbackBefore_def
        ap_defs state1_def state0_def ins_next_def ins_store_def)
  have d: "length (trace syscall_next_executed) = 2"
    using b c
    by (simp add: syscall_next_executed_def execute_ins_def a callbackBefore_def
        callbackAfter_def callbackSnapshot_def snapshot_loop_eq callbackLockCheck_def
        checkLockAnalysis_eq ap_defs Let_def)
  from a b d show ?thesis
    by (simp add: syscall_instrumented_eq)
qed

text \<open>
  Claim C6, amended. For any instrumented instruction that is not a system call and
  whose address is in the stop addresses, the installer has registered the after-hook
  evaluation point (the after callback and the stop-rule check, at the instruction's
  after point), and when the instruction executes through that point the stop-rule
  check leaves the trigger inactive. From there on, whatever the host invokes next, in
  particular the callbacks of the very next instruction whatever its address, adds no
  instruction record to the trace and the trigger stays inactive, as long as no
  activation happens: no instrumented trace contains an address that matches an
  activation rule.
\<close>

theorem stop_address_deactivates:
  assumes "INS_InsertCall ins where af \<in> set (installed s0 (TRACE_Instrumentation opts h tr s0))"
    and "\<not> INS_IsSyscall ins"
    and "INS_Address ins \<in> stopAnalysisFromAddr opts"
    and "\<not> list_ex (activating opts h) is"
  shows "INS_InsertCall ins (after_point ins) AF_callbackAfter
           \<in> set (installed s0 (TRACE_Instrumentation opts h tr s0))
    \<and> INS_InsertCall ins (after_point ins) AF_callbackLockCheck
           \<in> set (installed s0 (TRACE_Instrumentation opts h tr s0))
    \<and> \<not> analysisTrigger
          (execute_ins opts h (installed s0 (TRACE_Instrumentation opts h tr s0))
             (INS_Address ins) a a' s)
    \<and> \<not> analysisTrigger
          (run opts h is
             (execute_ins opts h (installed s0 (TRACE_Instrumentation opts h tr s0))
                (INS_Address ins) a a' s))
    \<and> trace (run opts h is
               (execute_ins opts h (installed s0 (TRACE_Instrumentation opts h tr s0))
                  (INS_Address ins) a a' s))
        = trace (execute_ins opts h (installed s0 (TRACE_Instrumentation opts h tr s0))
                   (INS_Address ins) a a' s)"
proof -
  let ?cs = "installed s0 (TRACE_Instrumentation opts h tr s0)"
  from TRACE_Instrumentation_after_calls [OF assms(1,2)]
  have reg: "INS_InsertCall ins (after_point ins) AF_callbackAfter \<in> set ?cs"
    "INS_InsertCall ins (after_point ins) AF_callbackLockCheck \<in> set ?cs"
    by simp_all
  have ok: "list_all trace_call_ok ?cs"
    by (rule TRACE_Instrumentation_installed)
  from execute_ins_lock_check [OF ok reg(2) assms(3)]
  have off: "\<not> analysisTrigger (execute_ins opts h ?cs (INS_Address ins) a a' s)" .
  from run_inactive [OF off assms(4)] off reg show ?thesis
    by simp
qed

text \<open>
  Claim C6, amended, on the store at the stop address \<open>0x4010a0\<close>: it is instrumented
  with the trigger active, its execution fires the before callback, the snapshot
  callback, the after callback and the stop-rule check, which switches the trigger
  off, and the instrumentation and the four callbacks of the following instruction at
  \<open>0x4010a4\<close> add no record.
\<close>

theorem stop_address_deactivates_witness:
  "INS_InsertCall ins_store IPOINT_BEFORE (AF_callbackBefore 0 True)
     \<in> set (installed state1 store_instrumented)
   \<and> INS_InsertCall ins_store IPOINT_AFTER AF_callbackLockCheck
     \<in> set (installed state1 store_instrumented)
   \<and> \<not> INS_IsSyscall ins_store
   \<and> INS_Address ins_store \<in> stopAnalysisFromAddr opts_symbol
   \<and> \<not> list_ex (activating opts_symbol host0) next_instruction
   \<and> analysisTrigger store_instrumented
   \<and> \<not> analysisTrigger
        (execute_ins opts_symbol host0 (installed state1 store_instrumented)
           (INS_Address ins_store) args0 args0 store_instrumented)
   \<and> trace (run opts_symbol host0 next_instruction
              (execute_ins opts_symbol host0 (installed state1 store_instrumented)
                 (INS_Address ins_store) args0 args0 store_instrumented))
       = trace (execute_ins opts_symbol host0 (installed state1 store_instrumented)
                  (INS_Address ins_store) args0 args0 store_instrumented)"
proof -
  have i: "installed state1 store_instrumented =
      [INS_InsertCall ins_store IPOINT_BEFORE (AF_callbackBefore 0 True),
       INS_InsertCall ins_store IPOINT_AFTER AF_callbackAfter,
       INS_InsertCall ins_store IPOINT_AFTER AF_callbackLockCheck,
       INS_InsertCall ins_store IPOINT_BEFORE (AF_callbackSnapshot 4)]"
    "analysisTrigger store_instrumented"
    by (simp_all add: store_instrumented_def installed_def TRACE_Instrumentation_def
        checkUnlockAnalysis_eq instrument_ins_inserted instrument_ins_frame
        Trigger_getState_def Let_def opts_symbol_def host0_def state1_def state0_def
        ins_store_def)
  then have m: "INS_InsertCall ins_store IPOINT_BEFORE (AF_callbackBefore 0 True)
      \<in> set (installed state1 (TRACE_Instrumentation opts_symbol host0 [[ins_store]] state1))"
    by (simp add: store_instrumented_def)
  have n: "\<not> INS_IsSyscall ins_store"
    by (simp add: ins_store_def)
  have a: "INS_Address ins_store \<in> stopAnalysisFromAddr opts_symbol"
    by (simp add: ins_store_def opts_symbol_def)
  have b: "\<not> list_ex (activating opts_symbol host0) next_instruction"
    by (simp add: next_instruction_def unlock_rule_matches_def opts_symbol_def host0_def
        ins_next_def ins_store_def)
  have p: "after_point ins_store = IPOINT_AFTER"
    by (simp add: after_point_def ins_store_def)
  show ?thesis
    using i n a b stop_address_deactivates [OF m n a b, of args0 args0 store_instrumented]
    by (simp add: store_instrumented_def p)
qed

end
